theory Spec2Isabelle
  imports Main
begin

section \<open>The insertion-ordered Map of the host language\<close>

text \<open>
  A JavaScript \<open>Map\<close> iterates its keys in insertion order; it is modelled as an
  association list with distinct keys, oldest insertion first.  \<open>Map_set\<close> on a
  present key overwrites in place (the position is kept), on an absent key it appends.
\<close>

type_synonym ('k, 'v) jsmap = "('k \<times> 'v) list"

definition Map_has :: "('k, 'v) jsmap \<Rightarrow> 'k \<Rightarrow> bool" where
  "Map_has m k = (k \<in> set (map fst m))"

definition Map_get :: "('k, 'v) jsmap \<Rightarrow> 'k \<Rightarrow> 'v option" where
  "Map_get m k = map_of m k"

definition Map_delete :: "('k, 'v) jsmap \<Rightarrow> 'k \<Rightarrow> ('k, 'v) jsmap" where
  "Map_delete m k = filter (\<lambda>p. fst p \<noteq> k) m"

definition Map_set :: "('k, 'v) jsmap \<Rightarrow> 'k \<Rightarrow> 'v \<Rightarrow> ('k, 'v) jsmap" where
  "Map_set m k v =
     (if Map_has m k then map (\<lambda>p. if fst p = k then (k, v) else p) m
      else m @ [(k, v)])"

definition Map_size :: "('k, 'v) jsmap \<Rightarrow> nat" where
  "Map_size m = length m"

definition Map_keys :: "('k, 'v) jsmap \<Rightarrow> 'k list" where
  "Map_keys m = map fst m"

text \<open>\<open>m.keys().next().value\<close>: the oldest key, \<open>undefined\<close> (None) on an empty Map.\<close>

definition Map_first_key :: "('k, 'v) jsmap \<Rightarrow> 'k option" where
  "Map_first_key m = (case m of [] \<Rightarrow> None | p # _ \<Rightarrow> Some (fst p))"

section \<open>LRUCache\<close>

record ('k, 'v) LRUCache =
  maxSize :: nat
  cache :: "('k, 'v) jsmap"

definition LRUCache_new :: "nat \<Rightarrow> ('k, 'v) LRUCache" where
  "LRUCache_new n = \<lparr>maxSize = n, cache = []\<rparr>"

text \<open>
  \<open>get(key)\<close>: an absent key gives \<open>undefined\<close> (None) and changes nothing; a present
  key is deleted and inserted again, which moves it to the end of the Map.
\<close>

definition LRU_get :: "('k, 'v) LRUCache \<Rightarrow> 'k \<Rightarrow> 'v option \<times> ('k, 'v) LRUCache" where
  "LRU_get c key =
     (if \<not> Map_has (cache c) key then (None, c)
      else case Map_get (cache c) key of
             None \<Rightarrow> (None, c)
           | Some val \<Rightarrow>
               (Some val, c\<lparr>cache := Map_set (Map_delete (cache c) key) key val\<rparr>))"

text \<open>
  \<open>set(key, value)\<close>: a present key is deleted first; otherwise, when the Map is full,
  the first key of the iteration order is deleted (\<open>delete(undefined)\<close> on an empty Map
  deletes nothing); then the pair is inserted.
\<close>

definition LRU_set :: "('k, 'v) LRUCache \<Rightarrow> 'k \<Rightarrow> 'v \<Rightarrow> ('k, 'v) LRUCache" where
  "LRU_set c key val =
     (let m = cache c;
          m1 = (if Map_has m key then Map_delete m key
                else if Map_size m \<ge> maxSize c then
                  (case Map_first_key m of None \<Rightarrow> m | Some firstKey \<Rightarrow> Map_delete m firstKey)
                else m)
      in c\<lparr>cache := Map_set m1 key val\<rparr>)"

definition LRU_has :: "('k, 'v) LRUCache \<Rightarrow> 'k \<Rightarrow> bool" where
  "LRU_has c key = Map_has (cache c) key"

definition LRU_clear :: "('k, 'v) LRUCache \<Rightarrow> ('k, 'v) LRUCache" where
  "LRU_clear c = c\<lparr>cache := []\<rparr>"

definition LRU_size :: "('k, 'v) LRUCache \<Rightarrow> nat" where
  "LRU_size c = Map_size (cache c)"

definition LRU_keys :: "('k, 'v) LRUCache \<Rightarrow> 'k list" where
  "LRU_keys c = Map_keys (cache c)"

text \<open>A sequence of cache operations, run from left to right.\<close>

datatype ('k, 'v) cache_op = CacheGet 'k | CacheSet 'k 'v

fun apply_cache_op :: "('k, 'v) LRUCache \<Rightarrow> ('k, 'v) cache_op \<Rightarrow> ('k, 'v) LRUCache" where
  "apply_cache_op c (CacheGet k) = snd (LRU_get c k)"
| "apply_cache_op c (CacheSet k v) = LRU_set c k v"

definition run_cache_ops :: "('k, 'v) cache_op list \<Rightarrow> ('k, 'v) LRUCache \<Rightarrow> ('k, 'v) LRUCache" where
  "run_cache_ops ops c = foldl apply_cache_op c ops"

text \<open>
  The time of the last use of a key in a sequence of operations: the number of operations
  up to and including the last one that names the key, 0 when none names it.  The
  least-recently-used of several keys is the one whose last use is the earliest.
\<close>

fun key_of :: "('k, 'v) cache_op \<Rightarrow> 'k" where
  "key_of (CacheGet k) = k"
| "key_of (CacheSet k v) = k"

definition last_use :: "('k, 'v) cache_op list \<Rightarrow> 'k \<Rightarrow> nat" where
  "last_use ops k = length (dropWhile (\<lambda>op. key_of op \<noteq> k) (rev ops))"

text \<open>The invariant of the cache: distinct keys, and no more entries than the capacity.\<close>

definition lru_inv :: "('k, 'v) LRUCache \<Rightarrow> bool" where
  "lru_inv c = (distinct (map fst (cache c)) \<and> length (cache c) \<le> maxSize c)"

section \<open>Field registries\<close>

text \<open>
  The value stored for one field path by \<open>MappingParser.parseProperties\<close>.  An entry
  of a mapped field carries \<open>type\<close>, the optional metadata, \<open>isNested\<close>,
  \<open>hasProperties\<close> and \<open>multiFields\<close>; the entry of a multi-field carries only
  \<open>type\<close>, \<open>isMultiField\<close> and \<open>parentField\<close>.  A property the entry does not
  have reads as \<open>undefined\<close> (None).
\<close>

record FieldInfo =
  ftype :: "string option"
  analyzer :: "string option"
  search_analyzer :: "string option"
  normalizer :: "string option"
  format :: "string option"
  isNested :: "bool option"
  hasProperties :: "bool option"
  multiFields :: "string list option"
  isMultiField :: "bool option"
  parentField :: "string option"

text \<open>
  A registry is the plain object \<open>fields\<close> built by the parser: its own properties, field
  path to FieldInfo, in insertion order, read by \<open>map_of\<close>.  A pair under the path
  \<open>__proto__\<close> is not an own property: it stands for the entry that the assignment
  \<open>fields['__proto__'] = {...}\<close> of \<open>parseProperties\<close>, made for a top-level field of
  that name, has turned into the prototype of the registry.
\<close>

type_synonym registry = "(string \<times> FieldInfo) list"

section \<open>The mapping service\<close>

text \<open>
  The values that flow through \<open>fetchMapping\<close>: \<open>undefined\<close>, or a registry object.
\<close>

datatype jsval = Undefined | Object registry

datatype js_error = TypeError string | SyntaxError string

record Stats =
  cacheHits :: nat
  cacheMisses :: nat
  fetchCount :: nat

text \<open>
  The arguments a debounced call captures: \<open>elasticsearchUrl\<close>, \<open>indexName\<close> and
  \<open>cacheKey\<close> (the request headers play no part in what follows and are left out).
\<close>

type_synonym fetch_args = "string \<times> string \<times> string"

text \<open>
  The service object together with the state of the closures and of the event loop that
  its asynchronous methods use:
  \<^item> \<open>svc_cache\<close>, \<open>pendingRequests\<close>, \<open>stats\<close>: the fields of \<open>ESMappingService\<close>;
  \<^item> \<open>timeout\<close>: the variable of the \<open>debounce\<close> closure, the armed timer with the
    arguments of the call that armed it, None when no timer is armed;
  \<^item> \<open>awaiting\<close>: the activations of \<open>fetchMapping\<close> suspended at
    \<open>await requestPromise\<close>, each with its caller, its cache key and the awaited value
    (the microtask queue, oldest first);
  \<^item> \<open>in_flight\<close>: the activations of \<open>_fetchMapping\<close> suspended at
    \<open>await fetchFn(url, ...)\<close>, each with the URL requested and its cache key;
  \<^item> \<open>requests\<close>: the URLs of all outbound fetches issued so far;
  \<^item> \<open>resolved\<close>: for each caller of \<open>fetchMapping\<close> whose promise is settled, the
    value it was resolved with.
\<close>

record service =
  svc_cache :: "(string, jsval) LRUCache"
  pendingRequests :: "(string, jsval) jsmap"
  stats :: Stats
  timeout :: "fetch_args option"
  awaiting :: "(nat \<times> string \<times> jsval) list"
  in_flight :: "(string \<times> string) list"
  requests :: "string list"
  resolved :: "(nat \<times> jsval) list"

definition ESMappingService_new :: service where
  "ESMappingService_new =
     \<lparr>svc_cache = LRUCache_new 50, pendingRequests = [],
      stats = \<lparr>cacheHits = 0, cacheMisses = 0, fetchCount = 0\<rparr>,
      timeout = None, awaiting = [], in_flight = [], requests = [], resolved = []\<rparr>"

text \<open>
  \<open>debounce(func, wait)\<close> returns \<open>executedFunction\<close>, which clears the armed timer,
  arms a new one with the arguments of this call, and has no \<open>return\<close> statement: its
  value is \<open>undefined\<close>.
\<close>

definition debouncedFetch :: "service \<Rightarrow> fetch_args \<Rightarrow> jsval \<times> service" where
  "debouncedFetch s args = (Undefined, s\<lparr>timeout := Some args\<rparr>)"

definition cacheKey_of :: "string \<Rightarrow> string \<Rightarrow> string" where
  "cacheKey_of elasticsearchUrl indexName = elasticsearchUrl @ ''#'' @ indexName"

text \<open>
  \<open>fetchMapping\<close> up to its first suspension, for the caller \<open>cid\<close>.  On a cache hit
  and on a pending entry the function returns, which settles the caller's promise with the
  returned value; otherwise it calls the debounced function, stores what that call
  returned under the key and suspends at \<open>await requestPromise\<close>.
\<close>

definition fetchMapping :: "service \<Rightarrow> nat \<Rightarrow> string \<Rightarrow> string \<Rightarrow> service" where
  "fetchMapping s cid elasticsearchUrl indexName =
     (let cacheKey = cacheKey_of elasticsearchUrl indexName in
      if LRU_has (svc_cache s) cacheKey then
        (let s1 = s\<lparr>stats := (stats s)\<lparr>cacheHits := cacheHits (stats s) + 1\<rparr>\<rparr>;
             (v, c) = LRU_get (svc_cache s1) cacheKey
         in s1\<lparr>svc_cache := c,
               resolved := resolved s1 @ [(cid, case v of None \<Rightarrow> Undefined | Some x \<Rightarrow> x)]\<rparr>)
      else
        (let s1 = s\<lparr>stats := (stats s)\<lparr>cacheMisses := cacheMisses (stats s) + 1\<rparr>\<rparr> in
         if Map_has (pendingRequests s1) cacheKey then
           s1\<lparr>resolved := resolved s1 @
                 [(cid, case Map_get (pendingRequests s1) cacheKey of
                          None \<Rightarrow> Undefined | Some x \<Rightarrow> x)]\<rparr>
         else
           (let (requestPromise, s2) = debouncedFetch s1 (elasticsearchUrl, indexName, cacheKey);
                s3 = s2\<lparr>pendingRequests := Map_set (pendingRequests s2) cacheKey requestPromise\<rparr>
            in s3\<lparr>awaiting := awaiting s3 @ [(cid, cacheKey, requestPromise)]\<rparr>)))"

text \<open>
  The continuation of \<open>fetchMapping\<close> after \<open>await requestPromise\<close>: the awaited
  value is not a promise, so \<open>result\<close> is that value; the \<open>finally\<close> block deletes the
  pending entry; the caller's promise is resolved with \<open>result\<close>.
\<close>

definition fetchMapping_resume :: "service \<Rightarrow> service" where
  "fetchMapping_resume s =
     (case awaiting s of
        [] \<Rightarrow> s
      | (cid, cacheKey, requestPromise) # rest \<Rightarrow>
          s\<lparr>awaiting := rest,
            pendingRequests := Map_delete (pendingRequests s) cacheKey,
            resolved := resolved s @ [(cid, requestPromise)]\<rparr>)"

text \<open>
  \<open>_fetchMapping\<close> up to \<open>await fetchFn(url, ...)\<close>: the counter is incremented and
  the request for \<open>elasticsearchUrl/indexName/_mapping\<close> is issued.
\<close>

definition fetchMapping_start :: "service \<Rightarrow> fetch_args \<Rightarrow> service" where
  "fetchMapping_start s args =
     (case args of (elasticsearchUrl, indexName, cacheKey) \<Rightarrow>
        (let s1 = s\<lparr>stats := (stats s)\<lparr>fetchCount := fetchCount (stats s) + 1\<rparr>\<rparr>;
             url = elasticsearchUrl @ ''/'' @ indexName @ ''/_mapping''
         in s1\<lparr>requests := requests s1 @ [url], in_flight := in_flight s1 @ [(url, cacheKey)]\<rparr>))"

text \<open>
  What happens to one outbound request: the fetch rejects; the response is not ok (the
  code throws an Error); \<open>response.json()\<close> rejects; the parser throws; or the parser
  returns the fields.  The first four land in the \<open>catch\<close> block.
\<close>

datatype fetch_outcome =
    TransportError
  | HttpStatus nat
  | MalformedBody
  | ParserThrows
  | Parsed registry

text \<open>
  The rest of \<open>_fetchMapping\<close>: on success the fields are cached under the key and
  returned; in the \<open>catch\<close> block the empty object is returned and the cache is untouched.
\<close>

definition fetchMapping_finish :: "service \<Rightarrow> string \<Rightarrow> fetch_outcome \<Rightarrow> jsval \<times> service" where
  "fetchMapping_finish s cacheKey outcome =
     (case outcome of
        Parsed flds \<Rightarrow>
          (Object flds, s\<lparr>svc_cache := LRU_set (svc_cache s) cacheKey (Object flds)\<rparr>)
      | _ \<Rightarrow> (Object [], s))"

text \<open>
  The timer callback \<open>later\<close> of \<open>debounce\<close>: it calls \<open>func(...args)\<close> as a
  statement, so the promise \<open>_fetchMapping\<close> returns is dropped.
\<close>

definition later :: "service \<Rightarrow> service" where
  "later s =
     (case timeout s of
        None \<Rightarrow> s
      | Some args \<Rightarrow> fetchMapping_start (s\<lparr>timeout := None\<rparr>) args)"

text \<open>The \<open>i\<close>-th request in flight completes; the value \<open>_fetchMapping\<close> returns goes nowhere.\<close>

definition fetch_completes :: "service \<Rightarrow> nat \<Rightarrow> fetch_outcome \<Rightarrow> service" where
  "fetch_completes s i outcome =
     (if i < length (in_flight s) then
        (let cacheKey = snd (in_flight s ! i);
             s1 = s\<lparr>in_flight := take i (in_flight s) @ drop (Suc i) (in_flight s)\<rparr>
         in snd (fetchMapping_finish s1 cacheKey outcome))
      else s)"

text \<open>All suspended continuations of \<open>fetchMapping\<close> run: the microtask queue is drained.\<close>

fun drain :: "nat \<Rightarrow> service \<Rightarrow> service" where
  "drain 0 s = s"
| "drain (Suc n) s = drain n (fetchMapping_resume s)"

definition drain_microtasks :: "service \<Rightarrow> service" where
  "drain_microtasks s = drain (length (awaiting s)) s"

text \<open>
  The events of the event loop.  \<open>Call\<close> is a call of \<open>fetchMapping\<close> by a caller;
  consecutive calls are made in the same synchronous block.  \<open>Tick\<close> ends the
  synchronous block: the microtasks run.  A timer callback and a fetch completion are
  tasks of their own and start only once the microtask queue is empty.
\<close>

datatype event =
    Call nat string string
  | Tick
  | TimerFires
  | FetchCompletes nat fetch_outcome

fun step :: "service \<Rightarrow> event \<Rightarrow> service" where
  "step s (Call cid elasticsearchUrl indexName) = fetchMapping s cid elasticsearchUrl indexName"
| "step s Tick = drain_microtasks s"
| "step s TimerFires = later (drain_microtasks s)"
| "step s (FetchCompletes i outcome) = fetch_completes (drain_microtasks s) i outcome"

definition run :: "event list \<Rightarrow> service \<Rightarrow> service" where
  "run evs s = foldl step s evs"

subsection \<open>clearIndexCache\<close>

text \<open>
  The properties of an \<open>LRUCache\<close> instance: the own fields \<open>maxSize\<close> and \<open>cache\<close>,
  the methods \<open>get\<close>, \<open>set\<close>, \<open>has\<close>, \<open>clear\<close> and the getters \<open>size\<close> and
  \<open>keys\<close> of the class.  Reading any other property gives \<open>undefined\<close> (None).
\<close>

datatype LRUCache_member =
    Field_maxSize | Field_cache
  | Method_get | Method_set | Method_has | Method_clear
  | Getter_size | Getter_keys

definition LRUCache_property :: "string \<Rightarrow> LRUCache_member option" where
  "LRUCache_property name =
     map_of [(''maxSize'', Field_maxSize), (''cache'', Field_cache),
             (''get'', Method_get), (''set'', Method_set), (''has'', Method_has),
             (''clear'', Method_clear), (''size'', Getter_size), (''keys'', Getter_keys)] name"

text \<open>
  A call \<open>this.cache.name(key)\<close> with one argument: a property that is missing or not a
  function raises a TypeError; a method runs with \<open>key\<close> as its first argument and
  \<open>undefined\<close> for the others.
\<close>

definition call_LRUCache :: "(string, jsval) LRUCache \<Rightarrow> string \<Rightarrow> string \<Rightarrow>
    js_error + (string, jsval) LRUCache" where
  "call_LRUCache c name key =
     (case LRUCache_property name of
        Some Method_get \<Rightarrow> Inr (snd (LRU_get c key))
      | Some Method_set \<Rightarrow> Inr (LRU_set c key Undefined)
      | Some Method_has \<Rightarrow> Inr c
      | Some Method_clear \<Rightarrow> Inr (LRU_clear c)
      | _ \<Rightarrow> Inl (TypeError (''this.cache.'' @ name @ '' is not a function'')))"

definition clearIndexCache :: "service \<Rightarrow> string \<Rightarrow> string \<Rightarrow> js_error + service" where
  "clearIndexCache s elasticsearchUrl indexName =
     (let cacheKey = cacheKey_of elasticsearchUrl indexName in
      case call_LRUCache (svc_cache s) ''delete'' cacheKey of
        Inl e \<Rightarrow> Inl e
      | Inr c \<Rightarrow> Inr (s\<lparr>svc_cache := c\<rparr>))"

subsection \<open>Sample data\<close>

text \<open>
  The entry \<open>parseProperties\<close> stores for a leaf field of the given type, without
  metadata, sub-properties or multi-fields.
\<close>

definition leaf_field :: "string \<Rightarrow> FieldInfo" where
  "leaf_field t =
     \<lparr>ftype = Some t, analyzer = None, search_analyzer = None, normalizer = None,
      format = None, isNested = Some (t = ''nested''), hasProperties = Some False,
      multiFields = Some [], isMultiField = None, parentField = None\<rparr>"

definition logs_fields :: registry where
  "logs_fields = [(''age'', leaf_field ''integer'')]"

section \<open>Reading a property of a registry object\<close>

text \<open>
  A registry is a plain object, so \<open>fields[name]\<close> finds the own property \<open>name\<close>,
  otherwise the property \<open>name\<close> of the prototype of the registry, and otherwise
  whatever \<open>name\<close> denotes on \<open>Object.prototype\<close>: one of its methods
  (\<open>toString\<close>, \<open>constructor\<close>, ...) or, for \<open>__proto__\<close>, the prototype object
  itself.  The methods and the prototype object are truthy and have neither a \<open>type\<close>
  nor an \<open>isNested\<close> property.  A name found nowhere reads as \<open>undefined\<close>.
\<close>

definition Object_prototype_properties :: "string list" where
  "Object_prototype_properties =
     [''constructor'', ''__defineGetter__'', ''__defineSetter__'', ''hasOwnProperty'',
      ''__lookupGetter__'', ''__lookupSetter__'', ''isPrototypeOf'',
      ''propertyIsEnumerable'', ''toString'', ''valueOf'', ''__proto__'',
      ''toLocaleString'']"

text \<open>
  The value of a property of an entry: a string, a boolean or, for \<open>multiFields\<close>, an
  array of strings; None when the entry has no such property or its value is
  \<open>undefined\<close>.
\<close>

datatype field_value = StringValue string | BooleanValue bool | ArrayValue "string list"

definition FieldInfo_property :: "FieldInfo \<Rightarrow> string \<Rightarrow> field_value option" where
  "FieldInfo_property info name =
     (if name = ''type'' then map_option StringValue (ftype info)
      else if name = ''analyzer'' then map_option StringValue (analyzer info)
      else if name = ''search_analyzer'' then map_option StringValue (search_analyzer info)
      else if name = ''normalizer'' then map_option StringValue (normalizer info)
      else if name = ''format'' then map_option StringValue (format info)
      else if name = ''isNested'' then map_option BooleanValue (isNested info)
      else if name = ''hasProperties'' then map_option BooleanValue (hasProperties info)
      else if name = ''multiFields'' then map_option ArrayValue (multiFields info)
      else if name = ''isMultiField'' then map_option BooleanValue (isMultiField info)
      else if name = ''parentField'' then map_option StringValue (parentField info)
      else None)"

text \<open>
  What \<open>fields[name]\<close> reads: the entry of a field (\<open>Own\<close>), the value of a property
  of the entry that is the prototype of the registry (\<open>Prototype_field\<close>), a member of
  \<open>Object.prototype\<close> (\<open>Inherited\<close>), or \<open>undefined\<close> (\<open>Missing\<close>).
\<close>

datatype property = Own FieldInfo | Prototype_field field_value | Inherited string | Missing

definition Object_prototype_property :: "string \<Rightarrow> property" where
  "Object_prototype_property name =
     (if name \<in> set Object_prototype_properties then Inherited name else Missing)"

text \<open>
  When the mapping has a top-level field named \<open>__proto__\<close>, its entry has become the
  prototype of the registry: \<open>fields['__proto__']\<close> reads that entry, and a name that is
  not an own property is looked up in the entry before \<open>Object.prototype\<close>, the
  prototype of the entry.
\<close>

definition get_property :: "registry \<Rightarrow> string \<Rightarrow> property" where
  "get_property flds name =
     (case map_of flds name of
        Some info \<Rightarrow> Own info
      | None \<Rightarrow>
          (case map_of flds ''__proto__'' of
             None \<Rightarrow> Object_prototype_property name
           | Some proto \<Rightarrow>
               (case FieldInfo_property proto name of
                  Some v \<Rightarrow> Prototype_field v
                | None \<Rightarrow> Object_prototype_property name)))"

text \<open>Truthiness: an empty string and \<open>false\<close> are falsy, an array is truthy.\<close>

definition truthy_property :: "property \<Rightarrow> bool" where
  "truthy_property p =
     (case p of
        Own _ \<Rightarrow> True
      | Prototype_field v \<Rightarrow>
          (case v of StringValue s \<Rightarrow> s \<noteq> [] | BooleanValue b \<Rightarrow> b | ArrayValue _ \<Rightarrow> True)
      | Inherited _ \<Rightarrow> True
      | Missing \<Rightarrow> False)"

text \<open>
  \<open>.type\<close> and \<open>.isNested\<close> of a value read from a registry; a string, a boolean, an
  array and a method have neither.
\<close>

definition type_of_property :: "property \<Rightarrow> string option" where
  "type_of_property p = (case p of Own info \<Rightarrow> ftype info | _ \<Rightarrow> None)"

definition isNested_of_property :: "property \<Rightarrow> bool" where
  "isNested_of_property p = (case p of Own info \<Rightarrow> (isNested info = Some True) | _ \<Rightarrow> False)"

section \<open>String helpers\<close>

text \<open>\<open>s.split(c)\<close> for a one-character separator, and \<open>parts.join(sep)\<close>.\<close>

fun split_on :: "char \<Rightarrow> string \<Rightarrow> string list" where
  "split_on c [] = [[]]"
| "split_on c (x # xs) =
     (if x = c then [] # split_on c xs
      else (case split_on c xs of [] \<Rightarrow> [[x]] | p # ps \<Rightarrow> (x # p) # ps))"

fun join_with :: "string \<Rightarrow> string list \<Rightarrow> string" where
  "join_with sep [] = []"
| "join_with sep [p] = p"
| "join_with sep (p # q # ps) = p @ sep @ join_with sep (q # ps)"

section \<open>MappingParser.getFieldType\<close>

text \<open>
  The loop \<open>for (let i = parts.length; i > 0; i--)\<close>, with \<open>i\<close> the number of leading
  segments kept; the function returns \<open>null\<close> (here \<open>Missing\<close>) when nothing is found.
\<close>

fun getFieldType_loop :: "registry \<Rightarrow> string list \<Rightarrow> nat \<Rightarrow> property" where
  "getFieldType_loop flds parts 0 = Missing"
| "getFieldType_loop flds parts (Suc i) =
     (let path = join_with ''.'' (take (Suc i) parts) in
      if truthy_property (get_property flds path) then get_property flds path
      else getFieldType_loop flds parts i)"

definition getFieldType :: "registry \<Rightarrow> string \<Rightarrow> property" where
  "getFieldType flds fieldName =
     (if truthy_property (get_property flds fieldName) then get_property flds fieldName
      else (let parts = split_on CHR ''.'' fieldName
            in getFieldType_loop flds parts (length parts)))"

text \<open>
  The lookup contract in the words of the specification: the field name itself first, then
  the name with one, two, ... trailing dot-segments stripped; the first of these paths that
  the registry stores decides.
\<close>

definition stripped_paths :: "string \<Rightarrow> string list" where
  "stripped_paths fieldName =
     (let parts = split_on CHR ''.'' fieldName
      in map (\<lambda>i. join_with ''.'' (take i parts)) (rev [1..<length parts]))"

definition resolve :: "registry \<Rightarrow> string \<Rightarrow> FieldInfo option" where
  "resolve flds fieldName =
     (case find (\<lambda>p. map_of flds p \<noteq> None) (fieldName # stripped_paths fieldName) of
        None \<Rightarrow> None
      | Some p \<Rightarrow> map_of flds p)"

text \<open>The entry stored for the first path of a list that the registry stores.\<close>

definition found :: "registry \<Rightarrow> string list \<Rightarrow> property" where
  "found flds paths =
     (case find (\<lambda>p. map_of flds p \<noteq> None) paths of
        None \<Rightarrow> Missing
      | Some p \<Rightarrow> (case map_of flds p of Some info \<Rightarrow> Own info | None \<Rightarrow> Missing))"

section \<open>Parsed documents\<close>

text \<open>
  The value \<open>JSON.parse\<close> returns.  The code only ever asks whether a number is an
  integer, compares integers, and prints numbers, so a number is
  \<^item> \<open>JInt i\<close> when it is an integer of magnitude below \<open>10^21\<close>, which
    \<open>String\<close> prints in decimal notation;
  \<^item> \<open>JBig i s\<close> when it is an integer of magnitude \<open>10^21\<close> or more, \<open>s\<close>
    being what \<open>String\<close> prints for it, in exponent notation (\<open>1e+21\<close>);
  \<^item> \<open>JFrac s\<close> when it is not an integer, \<open>s\<close> being what \<open>String\<close> prints
    for it.
  The pairs of a \<open>JObj\<close> are the own properties in the order \<open>for ... in\<close> and
  \<open>Object.keys\<close> enumerate them.
\<close>

datatype json =
    JNull
  | JBool bool
  | JInt int
  | JBig int string
  | JFrac string
  | JStr string
  | JArr "json list"
  | JObj "(string \<times> json) list"

text \<open>
  Decimal notation, which is what \<open>String(n)\<close> prints for an integer of magnitude
  below \<open>10^21\<close>, the integers a \<open>JInt\<close> holds.
\<close>

fun show_nat :: "nat \<Rightarrow> string" where
  "show_nat n =
     (if n < 10 then [char_of (48 + n)]
      else show_nat (n div 10) @ [char_of (48 + n mod 10)])"

definition show_int :: "int \<Rightarrow> string" where
  "show_int i = (if i < 0 then ''-'' @ show_nat (nat (- i)) else show_nat (nat i))"

definition quoted :: "string \<Rightarrow> string" where
  "quoted s = [CHR 0x22] @ s @ [CHR 0x22]"

text \<open>\<open>String(v)\<close>, the conversion a template literal and a property key apply.\<close>

fun ToString :: "json \<Rightarrow> string" where
  "ToString JNull = ''null''"
| "ToString (JBool b) = (if b then ''true'' else ''false'')"
| "ToString (JInt i) = show_int i"
| "ToString (JBig i s) = s"
| "ToString (JFrac s) = s"
| "ToString (JStr s) = s"
| "ToString (JArr xs) =
     join_with '','' (map (\<lambda>x. case x of JNull \<Rightarrow> [] | _ \<Rightarrow> ToString x) xs)"
| "ToString (JObj kvs) = ''[object Object]''"

definition ToString_opt :: "json option \<Rightarrow> string" where
  "ToString_opt v = (case v of None \<Rightarrow> ''undefined'' | Some x \<Rightarrow> ToString x)"

definition string_or_undefined :: "string option \<Rightarrow> string" where
  "string_or_undefined v = (case v of None \<Rightarrow> ''undefined'' | Some s \<Rightarrow> s)"

text \<open>\<open>typeof v === 'object' && v !== null\<close>, \<open>Array.isArray\<close>, and truthiness.\<close>

definition is_object :: "json \<Rightarrow> bool" where
  "is_object v = (case v of JArr _ \<Rightarrow> True | JObj _ \<Rightarrow> True | _ \<Rightarrow> False)"

definition isArray :: "json \<Rightarrow> bool" where
  "isArray v = (case v of JArr _ \<Rightarrow> True | _ \<Rightarrow> False)"

definition truthy :: "json \<Rightarrow> bool" where
  "truthy v =
     (case v of JNull \<Rightarrow> False | JBool b \<Rightarrow> b | JInt i \<Rightarrow> i \<noteq> 0
      | JBig _ _ \<Rightarrow> True | JFrac _ \<Rightarrow> True | JStr s \<Rightarrow> s \<noteq> [] | JArr _ \<Rightarrow> True | JObj _ \<Rightarrow> True)"

definition truthy_opt :: "json option \<Rightarrow> bool" where
  "truthy_opt v = (case v of None \<Rightarrow> False | Some x \<Rightarrow> truthy x)"

text \<open>
  The own enumerable properties of an object or an array (whose keys are its indices in
  decimal); \<open>for ... in\<close> over \<open>null\<close> enumerates nothing.
\<close>

definition entries :: "json \<Rightarrow> (string \<times> json) list" where
  "entries v =
     (case v of
        JObj kvs \<Rightarrow> kvs
      | JArr xs \<Rightarrow> zip (map show_nat [0..<length xs]) xs
      | _ \<Rightarrow> [])"

definition Object_keys :: "json \<Rightarrow> string list" where
  "Object_keys v = map fst (entries v)"

text \<open>
  \<open>v.name\<close> for a value that is not \<open>null\<close>, \<open>undefined\<close> being None.  None of the
  names the validator reads is inherited by an object, a string, a number or a boolean;
  an array inherits \<open>sort\<close>, which \<open>validate_document\<close> treats on its own.
\<close>

definition get_prop :: "json \<Rightarrow> string \<Rightarrow> json option" where
  "get_prop v name = map_of (entries v) name"

text \<open>\<open>a || b\<close> on property reads.\<close>

definition or_else :: "json option \<Rightarrow> json option \<Rightarrow> json option" where
  "or_else a b = (if truthy_opt a then a else b)"

definition is_digit :: "char \<Rightarrow> bool" where
  "is_digit c = (c \<in> set ''0123456789'')"

text \<open>The test \<open>/^\d+$/\<close>.\<close>

definition all_digits :: "string \<Rightarrow> bool" where
  "all_digits s = (s \<noteq> [] \<and> list_all is_digit s)"

section \<open>Findings\<close>

datatype severity = Error | Warning | Info

text \<open>A segment of the \<open>path\<close> of a finding: a key, an array index, or \<open>undefined\<close>.\<close>

datatype seg = Key string | Index nat | UndefinedSeg

record finding =
  severity :: severity
  message :: string
  path :: "seg list option"
  startLineNumber :: "nat option"
  startColumn :: "nat option"
  endLineNumber :: "nat option"
  endColumn :: "nat option"

definition finding_at :: "severity \<Rightarrow> string \<Rightarrow> seg list \<Rightarrow> finding" where
  "finding_at sev msg p =
     \<lparr>severity = sev, message = msg, path = Some p, startLineNumber = None,
      startColumn = None, endLineNumber = None, endColumn = None\<rparr>"

definition finding_plain :: "severity \<Rightarrow> string \<Rightarrow> finding" where
  "finding_plain sev msg =
     \<lparr>severity = sev, message = msg, path = None, startLineNumber = None,
      startColumn = None, endLineNumber = None, endColumn = None\<rparr>"

text \<open>
  What a validation method does to the shared \<open>errors\<close> array: the findings it pushes,
  in order, and the exception that ended it, if one was raised.
\<close>

type_synonym outcome = "finding list \<times> js_error option"

definition ok :: outcome where
  "ok = ([], None)"

definition push :: "finding \<Rightarrow> outcome" where
  "push f = ([f], None)"

definition throw :: "js_error \<Rightarrow> outcome" where
  "throw e = ([], Some e)"

definition and_then :: "outcome \<Rightarrow> outcome \<Rightarrow> outcome" where
  "and_then a b =
     (case snd a of
        Some e \<Rightarrow> a
      | None \<Rightarrow> (fst a @ fst b, snd b))"

fun in_order :: "outcome list \<Rightarrow> outcome" where
  "in_order [] = ok"
| "in_order (a # as) = and_then a (in_order as)"

section \<open>ESValidator\<close>

definition validTopLevelFields :: "string list" where
  "validTopLevelFields =
     [''query'', ''aggs'', ''aggregations'', ''sort'', ''size'', ''from'',
      ''timeout'', ''track_total_hits'', ''track_scores'', ''min_score'',
      ''source'', ''_source'', ''fields'', ''script_fields'', ''explain'',
      ''profile'', ''highlight'', ''rescore'', ''search_after'', ''collapse'']"

definition validateTopLevel :: "json \<Rightarrow> outcome" where
  "validateTopLevel query =
     (if \<not> is_object query then
        push \<lparr>severity = Error, message = ''Root must be an object'', path = None,
              startLineNumber = Some 1, startColumn = Some 1,
              endLineNumber = Some 1, endColumn = Some 10\<rparr>
      else in_order (map (\<lambda>(key, val).
             if key \<notin> set validTopLevelFields then
               push (finding_plain Warning (''Unknown top-level field: '' @ quoted key))
             else ok) (entries query)))"

definition ESValidator_isValidQueryType :: "string \<Rightarrow> bool" where
  "ESValidator_isValidQueryType t = (t \<in> set
     [''match'', ''match_phrase'', ''match_phrase_prefix'', ''match_bool_prefix'',
      ''multi_match'', ''combined_fields'', ''bool'', ''boosting'', ''dis_max'',
      ''constant_score'', ''function_score'', ''script_score'', ''exists'', ''ids'',
      ''prefix'', ''range'', ''regexp'', ''wildcard'', ''fuzzy'', ''type'', ''terms'',
      ''terms_set'', ''term'', ''nested'', ''has_child'', ''has_parent'', ''parent_id'',
      ''geo_bounding_box'', ''geo_distance'', ''geo_polygon'', ''geo_shape'',
      ''more_like_this'', ''script'', ''simple_query_string'', ''query_string'',
      ''percolate'', ''rank_feature'', ''distance_feature'', ''interval'',
      ''span_term'', ''span_multi'', ''span_first'', ''span_near'', ''span_or'',
      ''span_not'', ''span_containing'', ''span_within'', ''span_field_masking''])"

definition validMatchOptions :: "string list" where
  "validMatchOptions =
     [''query'', ''analyzer'', ''boost'', ''operator'', ''minimum_should_match'',
      ''fuzziness'', ''prefix_length'', ''max_expansions'', ''zero_terms_query'',
      ''lenient'', ''cutoff_frequency'', ''auto_generate_synonyms_phrase_query'']"

definition validateMatchOptions :: "json \<Rightarrow> seg list \<Rightarrow> outcome" where
  "validateMatchOptions options p =
     in_order (map (\<lambda>(option, val).
       and_then
         (if option \<notin> set validMatchOptions then
            push (finding_at Warning (''Unknown match query option: '' @ quoted option)
                    (p @ [Key option]))
          else ok)
         (if option = ''operator'' \<and> val \<notin> set [JStr ''and'', JStr ''or''] then
            push (finding_at Error
                    (''operator must be '' @ quoted ''and'' @ '' or '' @ quoted ''or'' @
                     '', got '' @ quoted (ToString val))
                    (p @ [Key option]))
          else ok)) (entries options))"

definition field_not_found :: "string \<Rightarrow> seg list \<Rightarrow> finding" where
  "field_not_found fieldName p =
     finding_at Warning (''Field '' @ quoted fieldName @ '' not found in mapping'') p"

definition validateMatchQuery :: "registry \<Rightarrow> json \<Rightarrow> seg list \<Rightarrow> outcome" where
  "validateMatchQuery currentFields matchQuery p =
     (if \<not> is_object matchQuery then
        push (finding_at Error ''match query must be an object'' p)
      else if length (Object_keys matchQuery) = 0 then
        push (finding_at Error ''match query requires at least one field'' p)
      else in_order (map (\<lambda>(fieldName, fieldValue).
             and_then
               (if \<not> truthy_property (get_property currentFields fieldName) then
                  push (field_not_found fieldName (p @ [Key fieldName]))
                else ok)
               (if is_object fieldValue then
                  validateMatchOptions fieldValue (p @ [Key fieldName])
                else ok)) (entries matchQuery)))"

definition validateTermQuery :: "registry \<Rightarrow> json \<Rightarrow> seg list \<Rightarrow> outcome" where
  "validateTermQuery currentFields termQuery p =
     (if \<not> is_object termQuery then
        push (finding_at Error ''term query must be an object'' p)
      else in_order (map (\<lambda>(fieldName, fieldValue).
             and_then
               (if \<not> truthy_property (get_property currentFields fieldName) then
                  push (field_not_found fieldName (p @ [Key fieldName]))
                else ok)
               (if fieldValue = JNull \<or> (is_object fieldValue \<and> \<not> isArray fieldValue) then
                  push (finding_at Error
                          (''term query value for '' @ quoted fieldName @
                           '' should be a simple value or array'')
                          (p @ [Key fieldName]))
                else ok)) (entries termQuery)))"

definition validRangeOperators :: "string list" where
  "validRangeOperators = [''gt'', ''gte'', ''lt'', ''lte'', ''format'', ''time_zone'']"

definition validateRangeQuery :: "registry \<Rightarrow> json \<Rightarrow> seg list \<Rightarrow> outcome" where
  "validateRangeQuery currentFields rangeQuery p =
     (if \<not> is_object rangeQuery then
        push (finding_at Error ''range query must be an object'' p)
      else case entries rangeQuery of
        [(fieldName, rangeValue)] \<Rightarrow>
          (if \<not> is_object rangeValue \<or> isArray rangeValue then
             push (finding_at Error
                     (''range query value for '' @ quoted fieldName @
                      '' must be an object with range operators'')
                     (p @ [Key fieldName]))
           else if length (Object_keys rangeValue) = 0 then
             push (finding_at Error
                     ''range query requires at least one range operator (gt, gte, lt, lte)''
                     (p @ [Key fieldName]))
           else
             and_then
               (in_order (map (\<lambda>op.
                  if op \<notin> set validRangeOperators then
                    push (finding_at Error
                            (''Unknown range operator: '' @ quoted op @
                             ''. Valid operators are: '' @ join_with '', '' validRangeOperators)
                            (p @ [Key fieldName, Key op]))
                  else ok) (Object_keys rangeValue)))
               (if truthy_property (get_property currentFields fieldName) then
                  (let fieldType = type_of_property (get_property currentFields fieldName) in
                   if fieldType \<notin> set (map Some [''integer'', ''long'', ''float'', ''double'',
                                                  ''date'', ''ip'']) then
                     push (finding_at Warning
                             (''range query is typically used with numeric/date fields, got '' @
                              quoted (string_or_undefined fieldType))
                             (p @ [Key fieldName]))
                   else ok)
                else ok))
      | _ \<Rightarrow> push (finding_at Error ''range query must have exactly one field'' p))"

definition validateExistsQuery :: "registry \<Rightarrow> json \<Rightarrow> seg list \<Rightarrow> outcome" where
  "validateExistsQuery currentFields existsQuery p =
     (if \<not> is_object existsQuery then
        push (finding_at Error ''exists query must be an object'' p)
      else case get_prop existsQuery ''field'' of
        Some (JStr field) \<Rightarrow>
          (if field = [] then
             push (finding_at Error
                     (''exists query requires a '' @ quoted ''field'' @
                      '' property with a string value'') p)
           else if \<not> truthy_property (get_property currentFields field) then
             push (field_not_found field (p @ [Key ''field'']))
           else ok)
      | _ \<Rightarrow>
          push (finding_at Error
                  (''exists query requires a '' @ quoted ''field'' @
                   '' property with a string value'') p))"

text \<open>
  One entry of \<open>fields\<close> in a \<open>multi_match\<close>: \<open>field.split('^')[0]\<close> needs a string;
  on \<open>null\<close> the property read raises, on any other value \<open>split\<close> is not a function.
\<close>

definition validateMultiMatchField :: "registry \<Rightarrow> seg list \<Rightarrow> nat \<times> json \<Rightarrow> outcome" where
  "validateMultiMatchField currentFields p entry =
     (case entry of (index, field) \<Rightarrow>
        (case field of
           JStr s \<Rightarrow>
             (let fieldName = hd (split_on CHR ''^'' s) in
              if \<not> truthy_property (get_property currentFields fieldName) then
                push (field_not_found fieldName (p @ [Key ''fields'', Index index]))
              else ok)
         | JNull \<Rightarrow> throw (TypeError ''Cannot read properties of null (reading 'split')'')
         | _ \<Rightarrow> throw (TypeError ''field.split is not a function'')))"

definition validateMultiMatchQuery :: "registry \<Rightarrow> json \<Rightarrow> seg list \<Rightarrow> outcome" where
  "validateMultiMatchQuery currentFields multiMatchQuery p =
     (if \<not> is_object multiMatchQuery then
        push (finding_at Error ''multi_match query must be an object'' p)
      else
        and_then
          (if \<not> truthy_opt (get_prop multiMatchQuery ''query'') then
             push (finding_at Error
                     (''multi_match query requires '' @ quoted ''query'' @ '' property'') p)
           else ok)
          (if \<not> truthy_opt (get_prop multiMatchQuery ''fields'') then
             push (finding_at Error
                     (''multi_match query requires '' @ quoted ''fields'' @
                      '' property (array)'') p)
           else case get_prop multiMatchQuery ''fields'' of
             Some (JArr fs) \<Rightarrow>
               in_order (map (validateMultiMatchField currentFields p)
                           (zip [0..<length fs] fs))
           | _ \<Rightarrow>
               push (finding_at Error (quoted ''fields'' @ '' must be an array'')
                       (p @ [Key ''fields'']))))"

definition validBoolClauses :: "string list" where
  "validBoolClauses = [''must'', ''filter'', ''should'', ''must_not'']"

text \<open>A property value is smaller than the object or array that holds it.\<close>

lemma size_entries: "(k, v) \<in> set (entries j) \<Longrightarrow> size v < size j"
proof (cases j)
  case (JArr xs)
  assume "(k, v) \<in> set (entries j)"
  with JArr have "v \<in> set xs" by (auto simp: entries_def dest: set_zip_rightD)
  then have "size v \<le> size_list size xs" by (simp add: size_list_estimation')
  with JArr show ?thesis by simp
next
  case (JObj kvs)
  assume "(k, v) \<in> set (entries j)"
  with JObj have "(k, v) \<in> set kvs" by (simp add: entries_def)
  then have "size v < Suc (size_list (size_prod (\<lambda>_. 0) size) kvs)"
    by (induction kvs) auto
  with JObj show ?thesis by simp
qed (simp_all add: entries_def)

lemma size_get_prop: "get_prop j name = Some v \<Longrightarrow> size v < size j"
  unfolding get_prop_def by (drule map_of_SomeD) (rule size_entries)

lemma size_or_else:
  "or_else (get_prop j a) (get_prop j b) = Some v \<Longrightarrow> size v < size j"
  by (auto simp: or_else_def size_get_prop split: if_splits)

function validateQuery :: "registry \<Rightarrow> json \<Rightarrow> seg list \<Rightarrow> outcome"
  and validateBoolQuery :: "registry \<Rightarrow> json \<Rightarrow> seg list \<Rightarrow> outcome"
  and validateNestedQuery :: "registry \<Rightarrow> json \<Rightarrow> seg list \<Rightarrow> outcome"
where
  "validateQuery currentFields query p =
     (if \<not> is_object query then
        push (finding_at Error ''Query must be an object'' p)
      else in_order (map (\<lambda>(queryType, queryValue).
             if \<not> ESValidator_isValidQueryType queryType then
               push (finding_at Error (''Unknown query type: '' @ quoted queryType)
                       (p @ [Key queryType]))
             else if queryType = ''bool'' then
               validateBoolQuery currentFields queryValue (p @ [Key queryType])
             else if queryType \<in> set [''match'', ''match_phrase'', ''match_phrase_prefix''] then
               validateMatchQuery currentFields queryValue (p @ [Key queryType])
             else if queryType \<in> set [''term'', ''terms''] then
               validateTermQuery currentFields queryValue (p @ [Key queryType])
             else if queryType = ''range'' then
               validateRangeQuery currentFields queryValue (p @ [Key queryType])
             else if queryType = ''exists'' then
               validateExistsQuery currentFields queryValue (p @ [Key queryType])
             else if queryType = ''multi_match'' then
               validateMultiMatchQuery currentFields queryValue (p @ [Key queryType])
             else if queryType = ''nested'' then
               validateNestedQuery currentFields queryValue (p @ [Key queryType])
             else if \<not> is_object queryValue then
               push (finding_at Error (quoted queryType @ '' query must be an object'')
                       (p @ [Key queryType]))
             else ok) (entries query)))"
| "validateBoolQuery currentFields boolQuery p =
     (if \<not> is_object boolQuery then
        push (finding_at Error ''bool query must be an object'' p)
      else in_order (map (\<lambda>(clause, clauseValue).
             if all_digits clause then ok
             else if clause \<notin> set validBoolClauses then
               push (finding_at Error
                       (''Unknown bool clause: '' @ quoted clause @
                        ''. Valid clauses are: '' @ join_with '', '' validBoolClauses)
                       (p @ [Key clause]))
             else case clauseValue of
               JArr subQueries \<Rightarrow>
                 in_order (map (\<lambda>subQuery.
                   validateQuery currentFields subQuery (p @ [Key clause])) subQueries)
             | _ \<Rightarrow>
                 push (finding_at Error (quoted clause @ '' must be an array'')
                         (p @ [Key clause]))) (entries boolQuery)))"
| "validateNestedQuery currentFields nestedQuery p =
     (if \<not> is_object nestedQuery then
        push (finding_at Error ''nested query must be an object'' p)
      else if \<not> truthy_opt (get_prop nestedQuery ''path'') then
        push (finding_at Error
                (''nested query requires '' @ quoted ''path'' @ '' property'') p)
      else
        and_then
          (case get_prop nestedQuery ''query'' of
             None \<Rightarrow>
               push (finding_at Error
                       (''nested query requires '' @ quoted ''query'' @ '' property'') p)
           | Some q \<Rightarrow>
               if \<not> truthy q then
                 push (finding_at Error
                         (''nested query requires '' @ quoted ''query'' @ '' property'') p)
               else validateQuery currentFields q (p @ [Key ''query'']))
          (let nestedPath = ToString_opt (get_prop nestedQuery ''path'');
               nestedField = get_property currentFields nestedPath
           in if truthy_property nestedField \<and> \<not> isNested_of_property nestedField then
                push (finding_at Error
                        (''Field '' @ quoted nestedPath @ '' is not a nested field'')
                        (p @ [Key ''path'']))
              else ok))"
  by pat_completeness auto
termination
proof (relation "measure (\<lambda>x. case x of
          Inl (_, q, _) \<Rightarrow> size q
        | Inr (Inl (_, q, _)) \<Rightarrow> size q
        | Inr (Inr (_, q, _)) \<Rightarrow> size q)", goal_cases)
  case 1
  then show ?case by simp
next
  case (2 currentFields query p x xa y)
  then show ?case using size_entries[of xa y query] by simp
next
  case (3 currentFields query p x xa y)
  then show ?case using size_entries[of xa y query] by simp
next
  case (4 currentFields boolQuery p x xa y x6 xb)
  then have "size (JArr x6) < size boolQuery" using size_entries[of xa "JArr x6" boolQuery] by simp
  moreover have "size xb \<le> size_list size x6" using 4 by (simp add: size_list_estimation')
  ultimately show ?case by simp
next
  case (5 currentFields nestedQuery p x2)
  then show ?case using size_get_prop[of nestedQuery "''query''" x2] by simp
qed

definition isValidAggregationType :: "string option \<Rightarrow> bool" where
  "isValidAggregationType t = (t \<in> set (map Some
     [''avg'', ''max'', ''min'', ''sum'', ''stats'', ''extended_stats'', ''cardinality'',
      ''value_count'', ''percentiles'', ''percentile_ranks'', ''terms'', ''filter'',
      ''filters'', ''range'', ''date_range'', ''ip_range'', ''histogram'', ''date_histogram'',
      ''geo_bounds'', ''geo_centroid'', ''nested'', ''reverse_nested'', ''top_hits'',
      ''bucket_sort'', ''composite'', ''significant_terms'', ''significant_text'',
      ''sampler'', ''diversified_sampler'']))"

text \<open>
  \<open>validateAggregations\<close> and \<open>validateAggregationConfig\<close>.  The aggregation type is
  the first key of the aggregation object, \<open>undefined\<close> when it has none.
\<close>

function validateAggregations :: "registry \<Rightarrow> json \<Rightarrow> seg list \<Rightarrow> outcome"
  and validateAggregationConfig :: "registry \<Rightarrow> string \<Rightarrow> json \<Rightarrow> seg list \<Rightarrow> outcome"
where
  "validateAggregations currentFields aggs p =
     (if \<not> is_object aggs then
        push (finding_at Error ''aggregations must be an object'' p)
      else in_order (map (\<lambda>(aggName, aggValue).
             if all_digits aggName then ok
             else if \<not> is_object aggValue then
               push (finding_at Error
                       (''Aggregation '' @ quoted aggName @ '' must be an object'')
                       (p @ [Key aggName]))
             else case entries aggValue of
               [] \<Rightarrow>
                 push (finding_at Error (''Unknown aggregation type: '' @ quoted ''undefined'')
                         (p @ [Key aggName, UndefinedSeg]))
             | (aggType, config) # _ \<Rightarrow>
                 if \<not> isValidAggregationType (Some aggType) then
                   push (finding_at Error (''Unknown aggregation type: '' @ quoted aggType)
                           (p @ [Key aggName, Key aggType]))
                 else validateAggregationConfig currentFields aggType config
                        (p @ [Key aggName, Key aggType]))
           (entries aggs)))"
| "validateAggregationConfig currentFields aggType config p =
     (if \<not> is_object config then
        push (finding_at Error
                (''Aggregation config for '' @ quoted aggType @ '' must be an object'') p)
      else
        and_then
          (if aggType \<notin> set [''filter'', ''filters'', ''multi_terms'',
                                ''diversified_sampler''] then
             (if \<not> truthy_opt (get_prop config ''field'') then
                push (finding_at Warning
                        (quoted aggType @ '' aggregation typically requires a '' @
                         quoted ''field'' @ '' property'') p)
              else if \<not> truthy_property
                         (get_property currentFields (ToString_opt (get_prop config ''field'')))
              then
                push (field_not_found (ToString_opt (get_prop config ''field''))
                        (p @ [Key ''field'']))
              else ok)
           else ok)
          (and_then
            (if aggType = ''date_histogram'' then
               (if \<not> truthy_opt (get_prop config ''calendar_interval'') \<and>
                   \<not> truthy_opt (get_prop config ''fixed_interval'') then
                  push (finding_at Warning
                          ''date_histogram should have calendar_interval or fixed_interval'' p)
                else ok)
             else if aggType = ''histogram'' then
               (if \<not> truthy_opt (get_prop config ''interval'') then
                  push (finding_at Warning
                          (''histogram requires '' @ quoted ''interval'' @ '' property'') p)
                else ok)
             else ok)
            (case or_else (get_prop config ''aggs'') (get_prop config ''aggregations'') of
               None \<Rightarrow> ok
             | Some nestedAggs \<Rightarrow>
                 if truthy nestedAggs then validateAggregations currentFields nestedAggs p
                 else ok)))"
  by pat_completeness auto
termination
proof (relation "measure (\<lambda>x. case x of
          Inl (_, q, _) \<Rightarrow> size q
        | Inr (_, _, q, _) \<Rightarrow> size q)", goal_cases)
  case 1
  then show ?case by simp
next
  case (2 currentFields aggs p x xa y x21 x22 xb ya)
  then have "(xb, ya) \<in> set (entries y)" by simp
  then have "size ya < size y" by (rule size_entries)
  moreover have "size y < size aggs" using 2 size_entries[of xa y aggs] by simp
  ultimately show ?case by simp
next
  case (3 currentFields aggType config p x2)
  then show ?case using size_or_else[of config "''aggs''" "''aggregations''" x2] by simp
qed

text \<open>
  \<open>validateSort(sort, errors, path)\<close>.  Every finding it would push is built with
  \<open>[...path, index]\<close>; spreading a \<open>path\<close> that is \<open>undefined\<close> raises a
  TypeError before anything is pushed.
\<close>

definition spread_path :: "seg list option \<Rightarrow> (seg list \<Rightarrow> finding) \<Rightarrow> outcome" where
  "spread_path p mk =
     (case p of
        None \<Rightarrow> throw (TypeError ''path is not iterable'')
      | Some segs \<Rightarrow> push (mk segs))"

definition sort_field_unknown :: "registry \<Rightarrow> string \<Rightarrow> bool" where
  "sort_field_unknown currentFields name =
     (\<not> truthy_property (get_property currentFields name) \<and>
      name \<notin> set [''_score'', ''_doc''])"

definition validateSortOrder :: "seg list option \<Rightarrow> nat \<Rightarrow> string \<Rightarrow> json \<Rightarrow> outcome" where
  "validateSortOrder p index fieldName order =
     (case order of
        JNull \<Rightarrow> throw (TypeError ''Cannot read properties of null (reading 'order')'')
      | _ \<Rightarrow>
          if is_object order \<and> truthy_opt (get_prop order ''order'') then
            (if get_prop order ''order'' \<notin> set [Some (JStr ''asc''), Some (JStr ''desc'')] then
               spread_path p (\<lambda>segs. finding_at Error
                 (''Sort order must be '' @ quoted ''asc'' @ '' or '' @ quoted ''desc'' @
                  '', got '' @ quoted (ToString_opt (get_prop order ''order'')))
                 (segs @ [Index index, Key fieldName, Key ''order'']))
             else ok)
          else ok)"

definition validateSortItem :: "registry \<Rightarrow> seg list option \<Rightarrow> nat \<times> json \<Rightarrow> outcome" where
  "validateSortItem currentFields p entry =
     (case entry of (index, sortItem) \<Rightarrow>
        (case sortItem of
           JStr name \<Rightarrow>
             (if sort_field_unknown currentFields name then
                spread_path p (\<lambda>segs. finding_at Warning
                  (''Sort field '' @ quoted name @ '' not found in mapping'')
                  (segs @ [Index index]))
              else ok)
         | _ \<Rightarrow>
             if sortItem = JNull \<or> is_object sortItem then
               in_order (map (\<lambda>(fieldName, order).
                 and_then
                   (if sort_field_unknown currentFields fieldName then
                      spread_path p (\<lambda>segs. finding_at Warning
                        (''Sort field '' @ quoted fieldName @ '' not found in mapping'')
                        (segs @ [Index index, Key fieldName]))
                    else ok)
                   (validateSortOrder p index fieldName order)) (entries sortItem))
             else ok))"

definition validateSort :: "registry \<Rightarrow> json \<Rightarrow> seg list option \<Rightarrow> outcome" where
  "validateSort currentFields sortValue p =
     (case sortValue of
        JArr items \<Rightarrow>
          in_order (map (validateSortItem currentFields p) (zip [0..<length items] items))
      | _ \<Rightarrow> ok)"

text \<open>\<open>Number.isInteger\<close>, and the value of an integer.\<close>

definition Number_isInteger :: "json option \<Rightarrow> bool" where
  "Number_isInteger v =
     (case v of Some (JInt _) \<Rightarrow> True | Some (JBig _ _) \<Rightarrow> True | _ \<Rightarrow> False)"

definition int_of :: "json option \<Rightarrow> int" where
  "int_of v = (case v of Some (JInt i) \<Rightarrow> i | Some (JBig i _) \<Rightarrow> i | _ \<Rightarrow> 0)"

definition validateCommonFields :: "json \<Rightarrow> outcome" where
  "validateCommonFields query =
     (let sizeValue = get_prop query ''size''; fromValue = get_prop query ''from'' in
      and_then
        (if sizeValue \<noteq> None then
           (if \<not> Number_isInteger sizeValue \<or> int_of sizeValue < 0 then
              push (finding_plain Warning ''size must be a non-negative integer'')
            else if int_of sizeValue > 10000 then
              push (finding_plain Info
                ''Large size value may impact performance. Consider using pagination.'')
            else ok)
         else ok)
        (and_then
          (if fromValue \<noteq> None then
             (if \<not> Number_isInteger fromValue \<or> int_of fromValue < 0 then
                push (finding_plain Warning ''from must be a non-negative integer'')
              else ok)
           else ok)
          (if Number_isInteger fromValue \<and> Number_isInteger sizeValue \<and>
              int_of fromValue + int_of sizeValue > 10000 then
             push (finding_plain Info
               ''from + size exceeds 10000. Consider using search_after for deep pagination.'')
           else ok)))"

text \<open>
  The body of the \<open>try\<close> block of \<open>validate\<close> after the parse.  Reading
  \<open>query.query\<close> of \<open>null\<close> raises.  \<open>validateQuery\<close> starts at the path
  \<open>['query']\<close>, \<open>validateAggregations\<close> at \<open>['aggs']\<close>, and \<open>validateSort\<close> is
  called without a path.  For an array, \<open>query.sort\<close> is the inherited method, and
  \<open>validateSort\<close> does nothing with a value that is not an array.
\<close>

definition validate_document :: "registry \<Rightarrow> json \<Rightarrow> outcome" where
  "validate_document currentFields query =
     and_then (validateTopLevel query)
       (if query = JNull then
          throw (TypeError ''Cannot read properties of null (reading 'query')'')
        else
          and_then
            (case get_prop query ''query'' of
               None \<Rightarrow> ok
             | Some q \<Rightarrow>
                 if truthy q then validateQuery currentFields q [Key ''query''] else ok)
            (and_then
              (case or_else (get_prop query ''aggs'') (get_prop query ''aggregations'') of
                 None \<Rightarrow> ok
               | Some aggs \<Rightarrow>
                   if truthy aggs then validateAggregations currentFields aggs [Key ''aggs'']
                   else ok)
              (and_then
                (case get_prop query ''sort'' of
                   None \<Rightarrow> ok
                 | Some sortValue \<Rightarrow>
                     if truthy sortValue then validateSort currentFields sortValue None
                     else ok)
                (validateCommonFields query))))"

text \<open>The \<open>catch\<close> block: \<open>e.message.match(/position (\\d+)/)\<close> and \<open>parseInt\<close>.\<close>

definition message_of :: "js_error \<Rightarrow> string" where
  "message_of e = (case e of TypeError m \<Rightarrow> m | SyntaxError m \<Rightarrow> m)"

definition parseInt_digits :: "string \<Rightarrow> nat" where
  "parseInt_digits ds = foldl (\<lambda>n c. 10 * n + (of_char c - 48)) 0 ds"

fun match_position :: "string \<Rightarrow> nat option" where
  "match_position [] = None"
| "match_position (c # cs) =
     (if take 9 (c # cs) = ''position '' \<and> takeWhile is_digit (drop 9 (c # cs)) \<noteq> [] then
        Some (parseInt_digits (takeWhile is_digit (drop 9 (c # cs))))
      else match_position cs)"

definition error_position :: "js_error \<Rightarrow> nat" where
  "error_position e = (case match_position (message_of e) of None \<Rightarrow> 0 | Some n \<Rightarrow> n)"

text \<open>\<open>getErrorPosition(text, position)\<close>: line number and column, both from 1.\<close>

definition getErrorPosition :: "string \<Rightarrow> nat \<Rightarrow> nat \<times> nat" where
  "getErrorPosition text position =
     (let lines = split_on CHR 0x0A (take position text)
      in (length lines, length (last lines) + 1))"

definition syntax_error_finding :: "string \<Rightarrow> js_error \<Rightarrow> finding" where
  "syntax_error_finding dslText e =
     (case getErrorPosition dslText (error_position e) of (lineNumber, column) \<Rightarrow>
        \<lparr>severity = Error, message = ''JSON syntax error: '' @ message_of e, path = None,
         startLineNumber = Some lineNumber, startColumn = Some column,
         endLineNumber = Some lineNumber, endColumn = Some (column + 1)\<rparr>)"


text \<open>
  \<open>validate(dslText)\<close>.  \<open>JSON_parse\<close> is the parser of the host: it returns the
  parsed value or raises a SyntaxError with the host's message.  Whatever is raised inside
  the \<open>try\<close> block, by the parser or later, is reported by the \<open>catch\<close> block as one
  more finding after those already pushed.
\<close>

definition validate :: "(string \<Rightarrow> string + json) \<Rightarrow> registry \<Rightarrow> string \<Rightarrow> finding list" where
  "validate JSON_parse currentFields dslText =
     (case JSON_parse dslText of
        Inl msg \<Rightarrow> [syntax_error_finding dslText (SyntaxError msg)]
      | Inr query \<Rightarrow>
          (case validate_document currentFields query of
             (errors, None) \<Rightarrow> errors
           | (errors, Some e) \<Rightarrow> errors @ [syntax_error_finding dslText e]))"

declare validateQuery.simps [simp del]
declare validateBoolQuery.simps [simp del]
declare validateNestedQuery.simps [simp del]
declare validateAggregations.simps [simp del]
declare validateAggregationConfig.simps [simp del]

subsection \<open>Sample documents\<close>

text \<open>The document \<open>{"size": 50000, "from": 0}\<close> and the value it parses to.\<close>

definition scenario_D_text :: string where
  "scenario_D_text = ''{'' @ quoted ''size'' @ '': 50000, '' @ quoted ''from'' @ '': 0}''"

definition scenario_D_document :: json where
  "scenario_D_document = JObj [(''size'', JInt 50000), (''from'', JInt 0)]"

definition scenario_D_parser :: "string \<Rightarrow> string + json" where
  "scenario_D_parser t =
     (if t = scenario_D_text then Inr scenario_D_document
      else Inl ''Unexpected end of JSON input'')"

definition large_size_info :: finding where
  "large_size_info =
     finding_plain Info ''Large size value may impact performance. Consider using pagination.''"

definition deep_pagination_info :: finding where
  "deep_pagination_info =
     finding_plain Info
       ''from + size exceeds 10000. Consider using search_after for deep pagination.''"

text \<open>
  A text of two lines with a trailing comma, and a parser that rejects it the way V8
  words the error.
\<close>

definition broken_text :: string where
  "broken_text = ''{'' @ [CHR 0x0A] @ '' '' @ quoted ''size'' @ '': 1,}''"

definition rejecting_parser :: "string \<Rightarrow> string + json" where
  "rejecting_parser t = Inl ''Unexpected token } in JSON at position 13''"







text \<open>
  A registry that maps \<open>user\<close> only, and clauses that name \<open>user.age\<close>:
  \<open>{"query": {"range": {"user.age": {"gte": 5}}}}\<close>,
  \<open>{"query": {"match": {"user.age": 5}}}\<close> and \<open>{"sort": ["user.age"]}\<close>.
\<close>

definition user_fields :: registry where
  "user_fields = [(''user'', leaf_field ''object'')]"

definition range_document :: json where
  "range_document =
     JObj [(''query'', JObj [(''range'', JObj [(''user.age'', JObj [(''gte'', JInt 5)])])])]"

definition match_document :: json where
  "match_document = JObj [(''query'', JObj [(''match'', JObj [(''user.age'', JInt 5)])])]"

definition sort_document :: json where
  "sort_document = JObj [(''sort'', JArr [JStr ''user.age''])]"

section \<open>The DSL context resolver\<close>

text \<open>
  The state of the scan in \<open>findPathToOffset\<close>.  An entry of \<open>path\<close> is a key or the
  array marker \<open>'[]'\<close>, both strings; \<open>currentKey\<close> is \<open>null\<close> (None) or the text
  collected inside string literals.
\<close>

record scan_state =
  s_path :: "string list"
  inString :: bool
  escapeNext :: bool
  s_currentKey :: "string option"
  expectingKey :: bool
  s_depth :: int

definition initial_state :: scan_state where
  "initial_state =
     \<lparr>s_path = [], inString = False, escapeNext = False, s_currentKey = None,
      expectingKey = True, s_depth = 0\<rparr>"

text \<open>
  The test \<open>/\s/\<close> on one character: the white space and line terminators among the
  first 256 code units.
\<close>

definition is_space :: "char \<Rightarrow> bool" where
  "is_space c = (of_char c \<in> set [9, 10, 11, 12, 13, 32, 160 :: nat])"

text \<open>\<open>code[i]\<close>: \<open>undefined\<close> (None) beyond the end of the text.\<close>

definition char_at :: "string \<Rightarrow> nat \<Rightarrow> char option" where
  "char_at code i = (if i < length code then Some (code ! i) else None)"

text \<open>
  The look-ahead of \<open>processChar\<close> after a closing quote: is the next character that is
  not white space a colon?
\<close>

definition next_is_colon :: "string \<Rightarrow> nat \<Rightarrow> bool" where
  "next_is_colon code pos =
     (case dropWhile is_space (drop (pos + 1) code) of
        [] \<Rightarrow> False
      | c # _ \<Rightarrow> c = CHR '':'')"

definition processChar :: "char option \<Rightarrow> scan_state \<Rightarrow> nat \<Rightarrow> string \<Rightarrow> scan_state" where
  "processChar char st pos code =
     (if escapeNext st then st\<lparr>escapeNext := False\<rparr>
      else if char = Some (CHR 0x5C) then st\<lparr>escapeNext := True\<rparr>
      else if char = Some (CHR 0x22) then
        (let st1 = st\<lparr>inString := \<not> inString st\<rparr> in
         case s_currentKey st1 of
           None \<Rightarrow> st1
         | Some key \<Rightarrow>
             if \<not> inString st1 \<and> expectingKey st1 then
               (let st2 = (if next_is_colon code pos then
                             st1\<lparr>s_path := s_path st1 @ [key], expectingKey := False\<rparr>
                           else st1)
                in st2\<lparr>s_currentKey := None\<rparr>)
             else st1)
      else if inString st then
        st\<lparr>s_currentKey :=
             Some ((case s_currentKey st of None \<Rightarrow> [] | Some k \<Rightarrow> k) @
                   (case char of None \<Rightarrow> ''undefined'' | Some c \<Rightarrow> [c]))\<rparr>
      else if char = Some (CHR ''{'') then
        st\<lparr>expectingKey := True, s_depth := s_depth st + 1\<rparr>
      else if char = Some (CHR ''}'') then
        st\<lparr>expectingKey := True, s_path := butlast (s_path st), s_depth := s_depth st - 1\<rparr>
      else if char = Some (CHR ''['') then
        st\<lparr>s_path := s_path st @ [''[]''], expectingKey := True\<rparr>
      else if char = Some (CHR '']'') then
        (if s_path st \<noteq> [] \<and> last (s_path st) = ''[]'' then
           st\<lparr>s_path := butlast (s_path st), expectingKey := False\<rparr>
         else st\<lparr>expectingKey := False\<rparr>)
      else if char = Some (CHR '','') then st\<lparr>expectingKey := True\<rparr>
      else if char = Some (CHR '':'') then st\<lparr>expectingKey := False\<rparr>
      else st)"

text \<open>
  \<open>findPathToOffset(ast, code, offset)\<close>: the loop \<open>for (let i = 0; i < offset; i++)\<close>;
  the parsed document \<open>ast\<close> is not used.  Reading \<open>code.substring\<close> of a \<open>code\<close>
  that is \<open>undefined\<close> or \<open>null\<close> (None) raises.
\<close>

definition scan_to :: "string \<Rightarrow> nat \<Rightarrow> scan_state" where
  "scan_to code offset =
     foldl (\<lambda>st i. processChar (char_at code i) st i code) initial_state [0..<offset]"

definition findPathToOffset :: "json \<Rightarrow> string option \<Rightarrow> nat \<Rightarrow> js_error + string list" where
  "findPathToOffset ast code offset =
     (case code of
        None \<Rightarrow> Inl (TypeError ''Cannot read properties of undefined (reading 'substring')'')
      | Some text \<Rightarrow> Inr (s_path (scan_to text offset)))"

datatype location = Unknown | Query | Aggs | Bool | Bool_clause

datatype expecting = ExpectKey | ExpectValue

record dsl_context =
  ctx_path :: "string list"
  location :: location
  queryType :: "string option"
  inArray :: bool
  arrayIndex :: int
  expecting :: expecting
  depth :: nat
  parentKey :: "string option"
  currentKey :: "string option"
  boolClause :: "string option"

definition getDefaultContext :: dsl_context where
  "getDefaultContext =
     \<lparr>ctx_path = [], location = Unknown, queryType = None, inArray = False,
      arrayIndex = - 1, expecting = ExpectKey, depth = 0, parentKey = None,
      currentKey = None, boolClause = None\<rparr>"

text \<open>The \<open>isValidQueryType\<close> of the parser module (a shorter list than the validator's).\<close>

definition isValidQueryType :: "string \<Rightarrow> bool" where
  "isValidQueryType t = (t \<in> set
     [''match'', ''match_phrase'', ''match_phrase_prefix'', ''match_bool_prefix'',
      ''multi_match'', ''combined_fields'', ''bool'', ''boosting'', ''dis_max'',
      ''constant_score'', ''function_score'', ''script_score'', ''exists'', ''ids'',
      ''prefix'', ''range'', ''regexp'', ''wildcard'', ''fuzzy'', ''type'', ''terms'',
      ''terms_set'', ''term'', ''nested'', ''has_child'', ''has_parent'', ''parent_id'',
      ''geo_bounding_box'', ''geo_distance'', ''geo_polygon'', ''geo_shape'',
      ''more_like_this'', ''script'', ''simple_query_string'', ''query_string'',
      ''percolate'', ''rank_feature'', ''distance_feature'', ''interval''])"

text \<open>One round of the loop over the path in \<open>analyzePath\<close>.\<close>

definition analyze_item :: "dsl_context \<Rightarrow> string \<Rightarrow> dsl_context" where
  "analyze_item ctx item =
     (if item = ''[]'' then ctx\<lparr>inArray := True\<rparr>
      else
        (let c1 = ctx\<lparr>ctx_path := ctx_path ctx @ [item], parentKey := currentKey ctx,
                      currentKey := Some item\<rparr>
         in if item = ''query'' then c1\<lparr>location := Query\<rparr>
            else if item = ''aggs'' \<or> item = ''aggregations'' then c1\<lparr>location := Aggs\<rparr>
            else if item = ''bool'' then c1\<lparr>location := Bool\<rparr>
            else if item \<in> set [''must'', ''should'', ''filter'', ''must_not''] then
              c1\<lparr>location := Bool_clause, boolClause := Some item\<rparr>
            else if isValidQueryType item then c1\<lparr>queryType := Some item\<rparr>
            else c1))"

text \<open>\<open>s.trim()\<close>.\<close>

definition trim :: "string \<Rightarrow> string" where
  "trim s = rev (dropWhile is_space (rev (dropWhile is_space s)))"

text \<open>
  Key or value?  Decided on the text of the current line before the offset: after its last
  colon, an odd number of quotes means a value; nothing but white space, or a lone opening
  brace or bracket, means a key; anything else a value.  Without a colon, a key.
\<close>

definition expecting_at :: "string \<Rightarrow> nat \<Rightarrow> expecting" where
  "expecting_at code offset =
     (let currentLine = last (split_on CHR 0x0A (take offset code)) in
      if CHR '':'' \<in> set currentLine then
        (let afterColon = last (split_on CHR '':'' currentLine);
             quotes = length (filter (\<lambda>c. c = CHR 0x22) afterColon)
         in if quotes mod 2 = 1 then ExpectValue
            else if length (trim afterColon) = 0 \<or> trim afterColon = ''{'' \<or>
                    trim afterColon = ''['' then ExpectKey
            else ExpectValue)
      else ExpectKey)"

definition analyzePath :: "string list \<Rightarrow> string \<Rightarrow> nat \<Rightarrow> dsl_context" where
  "analyzePath p code offset =
     (let ctx = foldl analyze_item getDefaultContext p
      in ctx\<lparr>depth := length p, expecting := expecting_at code offset\<rparr>)"

text \<open>
  \<open>partialParse(code)\<close>.  The first loop counts the braces and brackets outside string
  literals; when some are left open, the second loop walks back from the end to the last
  position where the nesting depth returns to zero, the text is cut there and closed with
  the missing braces and brackets (counted over the whole cut text).  A failure of the
  second parse gives the empty object.  Reading \<open>code.length\<close> of a \<open>code\<close> that is
  \<open>undefined\<close> raises.
\<close>

record brace_scan =
  open_braces :: nat
  close_braces :: nat
  open_brackets :: nat
  close_brackets :: nat
  bs_inString :: bool
  bs_escapeNext :: bool

definition count_brace :: "brace_scan \<Rightarrow> char \<Rightarrow> brace_scan" where
  "count_brace b c =
     (if bs_escapeNext b then b\<lparr>bs_escapeNext := False\<rparr>
      else if c = CHR 0x5C then b\<lparr>bs_escapeNext := True\<rparr>
      else if c = CHR 0x22 then b\<lparr>bs_inString := \<not> bs_inString b\<rparr>
      else if \<not> bs_inString b then
        (if c = CHR ''{'' then b\<lparr>open_braces := open_braces b + 1\<rparr>
         else if c = CHR ''}'' then b\<lparr>close_braces := close_braces b + 1\<rparr>
         else if c = CHR ''['' then b\<lparr>open_brackets := open_brackets b + 1\<rparr>
         else if c = CHR '']'' then b\<lparr>close_brackets := close_brackets b + 1\<rparr>
         else b)
      else b)"

definition braceCount :: "string \<Rightarrow> brace_scan" where
  "braceCount code =
     foldl count_brace
       \<lparr>open_braces = 0, close_braces = 0, open_brackets = 0, close_brackets = 0,
        bs_inString = False, bs_escapeNext = False\<rparr> code"

text \<open>
  The backward loop, from index \<open>i\<close> down to 0, with the depth and the string flag so
  far; it returns the position found by the \<open>break\<close>, or None when the loop runs out.
\<close>

fun last_complete :: "string \<Rightarrow> nat \<Rightarrow> int \<Rightarrow> bool \<Rightarrow> nat option" where
  "last_complete code 0 d inStr = None"
| "last_complete code (Suc i) d inStr =
     (let c = code ! i;
          d1 = (if \<not> inStr then
                  (if c = CHR ''}'' \<or> c = CHR '']'' then d + 1
                   else if c = CHR ''{'' \<or> c = CHR ''['' then d - 1
                   else d)
                else d);
          escapeCount = length (takeWhile (\<lambda>x. x = CHR 0x5C) (rev (take i code)));
          inStr1 = (if c = CHR 0x22 \<and> escapeCount mod 2 = 0 then \<not> inStr else inStr)
      in if d1 = 0 \<and> Suc i < length code then Some (Suc i)
         else last_complete code i d1 inStr1)"

definition truncate_and_close :: "string \<Rightarrow> string" where
  "truncate_and_close code =
     (let b = braceCount code in
      if open_braces b > close_braces b \<or> open_brackets b > close_brackets b then
        (let lastCompletePos =
               (case last_complete code (length code) 0 False of
                  None \<Rightarrow> length code
                | Some n \<Rightarrow> n);
             truncated = take lastCompletePos code;
             openBraces = count_list truncated CHR ''{'';
             closeBraces = count_list truncated CHR ''}'';
             openBrackets = count_list truncated CHR ''['';
             closeBrackets = count_list truncated CHR '']''
         in truncated @ replicate (openBraces - closeBraces) CHR ''}'' @
            replicate (openBrackets - closeBrackets) CHR '']'')
      else code)"

definition partialParse :: "(string \<Rightarrow> string + json) \<Rightarrow> string option \<Rightarrow> js_error + json" where
  "partialParse JSON_parse code =
     (case code of
        None \<Rightarrow> Inl (TypeError ''Cannot read properties of undefined (reading 'length')'')
      | Some text \<Rightarrow>
          (case JSON_parse (truncate_and_close text) of
             Inl msg \<Rightarrow> Inr (JObj [])
           | Inr v \<Rightarrow> Inr v))"

text \<open>
  \<open>getDSLContext(code, offset)\<close>: first the body of the outer \<open>try\<close> block, in which
  a failure of the strict parse is caught and answered by \<open>partialParse\<close>; then the
  function itself, whose \<open>catch\<close> block returns the default context.  \<open>JSON.parse\<close> of a
  \<open>code\<close> that is \<open>undefined\<close> raises like any other failed parse.
\<close>

definition getDSLContext_try ::
    "(string \<Rightarrow> string + json) \<Rightarrow> string option \<Rightarrow> nat \<Rightarrow> js_error + dsl_context" where
  "getDSLContext_try JSON_parse code offset =
     (case (case code of
              None \<Rightarrow> partialParse JSON_parse code
            | Some text \<Rightarrow>
                (case JSON_parse text of
                   Inl msg \<Rightarrow> partialParse JSON_parse code
                 | Inr v \<Rightarrow> Inr v)) of
        Inl e \<Rightarrow> Inl e
      | Inr ast \<Rightarrow>
          (case findPathToOffset ast code offset of
             Inl e \<Rightarrow> Inl e
           | Inr p \<Rightarrow>
               (case code of
                  None \<Rightarrow> Inl (TypeError ''Cannot read properties of undefined (reading 'substring')'')
                | Some text \<Rightarrow> Inr (analyzePath p text offset))))"

definition getDSLContext ::
    "(string \<Rightarrow> string + json) \<Rightarrow> string option \<Rightarrow> nat \<Rightarrow> js_error + dsl_context" where
  "getDSLContext JSON_parse code offset =
     (case getDSLContext_try JSON_parse code offset of
        Inl error \<Rightarrow> Inr getDefaultContext
      | Inr ctx \<Rightarrow> Inr ctx)"

section \<open>The completion provider\<close>

text \<open>
  A suggestion, with the attributes the provider itself reads or that tell suggestions
  apart: \<open>label\<close>, \<open>kind\<close> and \<open>detail\<close>.  The insert text, the documentation and the
  replacement range, which the provider only hands on to the editor, are left out.
\<close>

datatype kind = Property | Function | Value | Snippet

record suggestion =
  label :: string
  kind :: kind
  detail :: "string option"

definition suggest :: "kind \<Rightarrow> string \<times> string \<Rightarrow> suggestion" where
  "suggest k entry = \<lparr>label = fst entry, kind = k, detail = Some (snd entry)\<rparr>"

definition getQueryTypeSuggestions :: "suggestion list" where
  "getQueryTypeSuggestions = map (suggest Function)
     [(''match'', ''Full-text search''), (''term'', ''Exact value''),
      (''terms'', ''Multiple values''), (''range'', ''Range query''),
      (''bool'', ''Boolean query''), (''exists'', ''Field exists''),
      (''match_phrase'', ''Phrase match''), (''prefix'', ''Prefix match''),
      (''wildcard'', ''Wildcard match''), (''multi_match'', ''Multi-field search''),
      (''nested'', ''Nested query''), (''function_score'', ''Function score''),
      (''dis_max'', ''Disjunction max'')]"

text \<open>
  \<open>Object.entries(this.currentFields)\<close> enumerates the own properties of the registry:
  the entry that is its prototype is not among them.
\<close>

definition getFieldNameSuggestions :: "registry \<Rightarrow> suggestion list" where
  "getFieldNameSuggestions currentFields =
     map (\<lambda>(name, info).
       \<lparr>label = name, kind = Property, detail = Some (string_or_undefined (ftype info))\<rparr>)
       (filter (\<lambda>(name, info). name \<noteq> ''__proto__'') currentFields)"

definition getAggregationSuggestions :: "suggestion list" where
  "getAggregationSuggestions = map (suggest Function)
     [(''terms'', ''Bucket by unique terms''), (''avg'', ''Average''), (''sum'', ''Sum''),
      (''max'', ''Maximum''), (''min'', ''Minimum''), (''stats'', ''Statistics''),
      (''extended_stats'', ''Extended statistics''), (''cardinality'', ''Unique count''),
      (''value_count'', ''Count values''), (''filter'', ''Filter aggregation''),
      (''filters'', ''Multiple filters''), (''range'', ''Range buckets''),
      (''date_range'', ''Date range buckets''), (''date_histogram'', ''Date histogram''),
      (''histogram'', ''Numeric histogram''), (''nested'', ''Nested aggregation''),
      (''reverse_nested'', ''Reverse nested''), (''top_hits'', ''Top documents'')]"

text \<open>The templates of \<open>QUERY_TEMPLATES\<close>, by label and description.\<close>

definition getTemplateSuggestions :: "suggestion list" where
  "getTemplateSuggestions = map (suggest Snippet)
     [(''match_all'', ''Match all documents''), (''match query'', ''Full-text search''),
      (''term query'', ''Exact value match''), (''range query'', ''Range query''),
      (''bool query'', ''Boolean combination''),
      (''multi_match query'', ''Search multiple fields''),
      (''exists query'', ''Field exists''),
      (''terms aggregation'', ''Group by field values''),
      (''date_histogram'', ''Time series aggregation''),
      (''filter aggregation'', ''Filter and aggregate''),
      (''complex query'', ''Complex query with aggregations'')]"

definition getKeySuggestions :: "registry \<Rightarrow> dsl_context \<Rightarrow> suggestion list" where
  "getKeySuggestions currentFields dslContext =
     (if depth dslContext = 0 \<or> length (ctx_path dslContext) = 0 then
        map (suggest Property)
          [(''query'', ''Query clause''), (''aggs'', ''Aggregations''),
           (''sort'', ''Sort criteria''), (''size'', ''Number of results''),
           (''from'', ''Starting offset''), (''_source'', ''Source filtering'')]
      else if location dslContext = Query \<and> length (ctx_path dslContext) = 1 then
        getQueryTypeSuggestions
      else if location dslContext = Bool \<and> length (ctx_path dslContext) = 2 then
        map (suggest Property)
          [(''must'', ''Must match''), (''should'', ''Should match''),
           (''filter'', ''Filter''), (''must_not'', ''Must not match'')]
      else if location dslContext = Bool_clause then getQueryTypeSuggestions
      else if queryType dslContext \<noteq> None then getFieldNameSuggestions currentFields
      else if location dslContext = Aggs then getAggregationSuggestions
      else [])"

text \<open>
  \<open>getValueSuggestions\<close>.  When the current key names a property of the registry the
  code calls \<open>this.getFieldValueSuggestions\<close>, a method the class does not have: the call
  raises a TypeError.
\<close>

definition getValueSuggestions :: "registry \<Rightarrow> dsl_context \<Rightarrow> js_error + suggestion list" where
  "getValueSuggestions currentFields dslContext =
     (let suggestions =
            (if currentKey dslContext = Some ''operator'' \<and>
                queryType dslContext \<in> set [Some ''match'', Some ''match_phrase''] then
               [\<lparr>label = ''or'', kind = Value, detail = None\<rparr>,
                \<lparr>label = ''and'', kind = Value, detail = None\<rparr>]
             else [])
      in case currentKey dslContext of
           None \<Rightarrow> Inr suggestions
         | Some k \<Rightarrow>
             if k \<noteq> [] \<and> truthy_property (get_property currentFields k) then
               Inl (TypeError ''this.getFieldValueSuggestions is not a function'')
             else Inr suggestions)"

text \<open>The test \<open>/[\w_]+$/\<close>: the longest run of word characters at the end, if any.\<close>

definition is_word_char :: "char \<Rightarrow> bool" where
  "is_word_char c =
     (c \<in> set ''abcdefghijklmnopqrstuvwxyzABCDEFGHIJKLMNOPQRSTUVWXYZ0123456789_'')"

definition word_at_end :: "string \<Rightarrow> string" where
  "word_at_end s = rev (takeWhile is_word_char (rev s))"

text \<open>\<open>lastIndexOf\<close> a character: None for \<open>-1\<close>.\<close>

definition lastIndexOf :: "string \<Rightarrow> char \<Rightarrow> nat option" where
  "lastIndexOf s c =
     (if c \<in> set s then Some (length s - 1 - length (takeWhile (\<lambda>x. x \<noteq> c) (rev s)))
      else None)"

definition extractCurrentWord :: "string \<Rightarrow> string" where
  "extractCurrentWord lineUntilPosition =
     (case lastIndexOf lineUntilPosition (CHR 0x22) of
        None \<Rightarrow> word_at_end lineUntilPosition
      | Some lastQuoteIndex \<Rightarrow>
          (let afterQuote = drop (lastQuoteIndex + 1) lineUntilPosition in
           if CHR 0x22 \<in> set afterQuote then word_at_end afterQuote
           else afterQuote))"

text \<open>\<open>toLowerCase\<close> on the first 256 code units, and \<open>startsWith\<close>.\<close>

definition lower_char :: "char \<Rightarrow> char" where
  "lower_char c =
     (let n = of_char c :: nat in
      if (65 \<le> n \<and> n \<le> 90) \<or> (192 \<le> n \<and> n \<le> 222 \<and> n \<noteq> 215) then char_of (n + 32)
      else c)"

definition toLowerCase :: "string \<Rightarrow> string" where
  "toLowerCase s = map lower_char s"

definition startsWith :: "string \<Rightarrow> string \<Rightarrow> bool" where
  "startsWith s pre = (take (length pre) s = pre)"

definition filterSuggestions :: "suggestion list \<Rightarrow> string \<Rightarrow> suggestion list" where
  "filterSuggestions suggestions currentWord =
     (if currentWord = [] then suggestions
      else filter (\<lambda>s. startsWith (toLowerCase (label s)) (toLowerCase currentWord))
             suggestions)"

text \<open>
  \<open>deduplicateSuggestions\<close>: the first suggestion of each label is kept.  The provider
  defines this method and never calls it.
\<close>

fun deduplicate_seen :: "string list \<Rightarrow> suggestion list \<Rightarrow> suggestion list" where
  "deduplicate_seen seen [] = []"
| "deduplicate_seen seen (s # ss) =
     (if label s \<in> set seen then deduplicate_seen seen ss
      else s # deduplicate_seen (label s # seen) ss)"

definition deduplicateSuggestions :: "suggestion list \<Rightarrow> suggestion list" where
  "deduplicateSuggestions suggestions = deduplicate_seen [] suggestions"

text \<open>
  \<open>provideCompletionItems\<close>, for the text of the editor and the offset of the cursor in
  it (lines end with a line feed).  The text of the line up to the cursor gives the word
  in progress; the context is resolved on the text before that word.
\<close>

definition provideCompletionItems ::
    "(string \<Rightarrow> string + json) \<Rightarrow> registry \<Rightarrow> string \<Rightarrow> nat \<Rightarrow> js_error + suggestion list" where
  "provideCompletionItems JSON_parse currentFields code offset =
     (let lineUntilPosition = last (split_on CHR 0x0A (take offset code));
          currentWord = extractCurrentWord lineUntilPosition;
          codeBeforeWord = take (offset - length currentWord) code
      in case getDSLContext JSON_parse (Some codeBeforeWord) (offset - length currentWord) of
           Inl e \<Rightarrow> Inl e
         | Inr dslContext \<Rightarrow>
             (case (if expecting dslContext = ExpectKey then
                      Inr (getKeySuggestions currentFields dslContext)
                    else getValueSuggestions currentFields dslContext) of
                Inl e \<Rightarrow> Inl e
              | Inr suggestions \<Rightarrow>
                  (let textBefore = take offset code;
                       withTemplates =
                         (if length (trim textBefore) < 50 then
                            suggestions @ getTemplateSuggestions
                          else suggestions)
                   in Inr (filterSuggestions withTemplates currentWord))))"

subsection \<open>A sample text\<close>

text \<open>
  The text \<open>{"aggs":{"a":{\<close>, a line feed, and \<open>"d\<close>: the cursor, at the end, is
  inside an aggregation and the word in progress is \<open>d\<close>.
\<close>

definition aggs_text :: string where
  "aggs_text = ''{'' @ quoted ''aggs'' @ '':{'' @ quoted ''a'' @ '':{'' @ [CHR 0x0A, CHR 0x22] @ ''d''"

section \<open>Properties of the LRU cache\<close>

lemma Map_set_absent: "\<not> Map_has m k \<Longrightarrow> Map_set m k v = m @ [(k, v)]"
  by (simp add: Map_set_def)

lemma Map_delete_not_has: "\<not> Map_has (Map_delete m k) k"
  by (auto simp: Map_has_def Map_delete_def)

lemma distinct_Map_delete: "distinct (map fst m) \<Longrightarrow> distinct (map fst (Map_delete m k))"
  by (simp add: Map_delete_def distinct_map_filter)

lemma length_Map_delete_present:
  "distinct (map fst m) \<Longrightarrow> Map_has m k \<Longrightarrow> Suc (length (Map_delete m k)) = length m"
proof (induction m)
  case Nil
  then show ?case by (simp add: Map_has_def)
next
  case (Cons p m)
  show ?case
  proof (cases "fst p = k")
    case True
    with Cons.prems have "k \<notin> fst ` set m" by auto
    then have "filter (\<lambda>q. fst q \<noteq> k) m = m"
      by (auto simp: filter_id_conv)
    with True show ?thesis by (simp add: Map_delete_def)
  next
    case False
    with Cons show ?thesis by (auto simp: Map_delete_def Map_has_def)
  qed
qed

lemma Map_delete_first: "distinct (map fst (p # m)) \<Longrightarrow> Map_delete (p # m) (fst p) = m"
proof -
  assume "distinct (map fst (p # m))"
  then have "fst p \<notin> fst ` set m" by simp
  then have "\<forall>q\<in>set m. fst q \<noteq> fst p" by (metis image_eqI)
  then show ?thesis by (simp add: Map_delete_def filter_id_conv)
qed

lemma LRU_set_present:
  "Map_has (cache c) k \<Longrightarrow> cache (LRU_set c k v) = Map_delete (cache c) k @ [(k, v)]"
  by (simp add: LRU_set_def Let_def Map_set_absent Map_delete_not_has)

lemma LRU_set_evict:
  assumes "distinct (map fst (cache c))" "\<not> Map_has (cache c) k"
    "maxSize c \<le> Map_size (cache c)" "cache c \<noteq> []"
  shows "cache (LRU_set c k v) = tl (cache c) @ [(k, v)]"
proof -
  obtain p m where pm: "cache c = p # m" using assms(4) by (cases "cache c") auto
  have "Map_delete (cache c) (fst p) = m" using assms(1) pm Map_delete_first by metis
  moreover have "\<not> Map_has m k" using assms(2) pm by (auto simp: Map_has_def)
  ultimately show ?thesis using assms(2,3) pm
    by (simp add: LRU_set_def Let_def Map_first_key_def Map_set_absent)
qed

lemma LRU_set_room:
  "\<not> Map_has (cache c) k \<Longrightarrow> Map_size (cache c) < maxSize c \<Longrightarrow>
   cache (LRU_set c k v) = cache c @ [(k, v)]"
  by (simp add: LRU_set_def Let_def Map_set_absent)

lemma Map_get_present: "Map_has m k \<Longrightarrow> \<exists>val. Map_get m k = Some val"
  by (auto simp: Map_has_def Map_get_def weak_map_of_SomeI intro: map_of_SomeD)

lemma Map_get_Some_has: "Map_get m k = Some val \<Longrightarrow> Map_has m k"
  by (auto simp: Map_has_def Map_get_def dest: map_of_SomeD intro: rev_image_eqI)

lemma LRU_get_present:
  "Map_get (cache c) k = Some val \<Longrightarrow>
   LRU_get c k = (Some val, c\<lparr>cache := Map_delete (cache c) k @ [(k, val)]\<rparr>)"
proof -
  assume g: "Map_get (cache c) k = Some val"
  then have h: "Map_has (cache c) k" by (rule Map_get_Some_has)
  have "Map_set (Map_delete (cache c) k) k val = Map_delete (cache c) k @ [(k, val)]"
    using Map_delete_not_has by (rule Map_set_absent)
  then show ?thesis using g h by (simp add: LRU_get_def)
qed

lemma maxSize_LRU_set [simp]: "maxSize (LRU_set c k v) = maxSize c"
  by (simp add: LRU_set_def Let_def)

lemma maxSize_LRU_get [simp]: "maxSize (snd (LRU_get c k)) = maxSize c"
  by (simp add: LRU_get_def split: option.splits)

lemma lru_inv_set:
  assumes "lru_inv c" "0 < maxSize c"
  shows "lru_inv (LRU_set c k v)"
proof (cases "Map_has (cache c) k")
  case True
  have d: "distinct (map fst (cache c))" using assms by (simp add: lru_inv_def)
  have "Suc (length (Map_delete (cache c) k)) = length (cache c)"
    using d True by (rule length_Map_delete_present)
  moreover have "k \<notin> fst ` set (Map_delete (cache c) k)"
    using Map_delete_not_has[of "cache c" k] by (simp add: Map_has_def)
  ultimately show ?thesis using assms d True
    by (simp add: lru_inv_def LRU_set_present distinct_Map_delete)
next
  case False
  have d: "distinct (map fst (cache c))" using assms by (simp add: lru_inv_def)
  show ?thesis
  proof (cases "maxSize c \<le> Map_size (cache c)")
    case full: True
    then have ne: "cache c \<noteq> []" using assms(2) by (auto simp: Map_size_def)
    have eq: "cache (LRU_set c k v) = tl (cache c) @ [(k, v)]"
      using d False full ne by (rule LRU_set_evict)
    have "k \<notin> fst ` set (tl (cache c))"
      using False ne by (cases "cache c") (auto simp: Map_has_def)
    moreover have "distinct (map fst (tl (cache c)))"
      using d by (simp add: distinct_tl map_tl)
    ultimately show ?thesis using assms ne by (simp add: lru_inv_def eq)
  next
    case room: False
    then have eq: "cache (LRU_set c k v) = cache c @ [(k, v)]"
      using False by (simp add: LRU_set_room)
    show ?thesis using assms room False d
      by (simp add: lru_inv_def eq Map_has_def Map_size_def)
  qed
qed

lemma lru_inv_get:
  assumes "lru_inv c"
  shows "lru_inv (snd (LRU_get c k))"
proof (cases "Map_get (cache c) k")
  case None
  then show ?thesis using assms by (simp add: LRU_get_def)
next
  case (Some val)
  have d: "distinct (map fst (cache c))" using assms by (simp add: lru_inv_def)
  have h: "Map_has (cache c) k" using Some by (rule Map_get_Some_has)
  have "Suc (length (Map_delete (cache c) k)) = length (cache c)"
    using d h by (rule length_Map_delete_present)
  moreover have "k \<notin> fst ` set (Map_delete (cache c) k)"
    using Map_delete_not_has[of "cache c" k] by (simp add: Map_has_def)
  ultimately show ?thesis using assms d
    by (simp add: LRU_get_present[OF Some] lru_inv_def distinct_Map_delete)
qed

lemma lru_inv_run:
  "lru_inv c \<Longrightarrow> 0 < maxSize c \<Longrightarrow>
   lru_inv (run_cache_ops ops c) \<and> maxSize (run_cache_ops ops c) = maxSize c"
proof (induction ops arbitrary: c)
  case Nil
  then show ?case by (simp add: run_cache_ops_def)
next
  case (Cons x ops)
  have "lru_inv (apply_cache_op c x) \<and> maxSize (apply_cache_op c x) = maxSize c"
    using Cons.prems by (cases x) (simp_all add: lru_inv_get lru_inv_set)
  with Cons show ?case by (simp add: run_cache_ops_def)
qed

lemma lru_move_to_end:
  assumes "LRU_has c k"
  shows "cache (LRU_set c k v) = Map_delete (cache c) k @ [(k, v)] \<and>
       (\<exists>val. Map_get (cache c) k = Some val \<and>
          LRU_get c k = (Some val, c\<lparr>cache := Map_delete (cache c) k @ [(k, val)]\<rparr>))"
proof -
  from assms have h: "Map_has (cache c) k" by (simp add: LRU_has_def)
  from Map_get_present[OF h] obtain val where g: "Map_get (cache c) k = Some val" ..
  have 1: "cache (LRU_set c k v) = Map_delete (cache c) k @ [(k, v)]"
    using h by (rule LRU_set_present)
  have 2: "LRU_get c k = (Some val, c\<lparr>cache := Map_delete (cache c) k @ [(k, val)]\<rparr>)"
    using g by (rule LRU_get_present)
  from g 2 have "\<exists>val. Map_get (cache c) k = Some val \<and>
          LRU_get c k = (Some val, c\<lparr>cache := Map_delete (cache c) k @ [(k, val)]\<rparr>)"
    by (intro exI conjI)
  with 1 show ?thesis by (rule conjI)
qed


lemma lru_evict_oldest:
  assumes "lru_inv c" "LRU_size c = maxSize c" "0 < maxSize c" "\<not> LRU_has c k"
  shows "cache (LRU_set c k v) = tl (cache c) @ [(k, v)] \<and> LRU_size (LRU_set c k v) = maxSize c"
proof -
  have d: "distinct (map fst (cache c))" using assms(1) by (simp add: lru_inv_def)
  have len: "length (cache c) = maxSize c" using assms(2) by (simp add: LRU_size_def Map_size_def)
  have ne: "cache c \<noteq> []" using len assms(3) by (cases "cache c") simp_all
  have nh: "\<not> Map_has (cache c) k" using assms(4) by (simp add: LRU_has_def)
  have full: "maxSize c \<le> Map_size (cache c)" using len by (simp add: Map_size_def)
  have eq: "cache (LRU_set c k v) = tl (cache c) @ [(k, v)]"
    using d nh full ne by (rule LRU_set_evict)
  have "length (tl (cache c) @ [(k, v)]) = length (cache c)" using ne by simp
  then have "length (cache (LRU_set c k v)) = maxSize c" unfolding eq len .
  then have "LRU_size (LRU_set c k v) = maxSize c" by (simp add: LRU_size_def Map_size_def)
  with eq show ?thesis by (rule conjI)
qed

subsection \<open>The order of the entries\<close>

lemma last_use_snoc:
  "last_use (ops @ [x]) k = (if key_of x = k then Suc (length ops) else last_use ops k)"
  by (simp add: last_use_def)

lemma last_use_le: "last_use ops k \<le> length ops"
  unfolding last_use_def
  using length_dropWhile_le[of "\<lambda>op. key_of op \<noteq> k" "rev ops"] by simp

lemma map_fst_Map_delete: "map fst (Map_delete m k) = filter (\<lambda>a. a \<noteq> k) (map fst m)"
  by (induction m) (simp_all add: Map_delete_def)

lemma filter_absent: "k \<notin> set ks \<Longrightarrow> filter (\<lambda>a. a \<noteq> k) ks = ks"
  by (induction ks) auto

text \<open>
  An operation that uses a key, a \<open>set\<close> or a \<open>get\<close> of a present key, leaves the
  other keys in their order, without the first of them when it evicts, and puts the key
  last.
\<close>

lemma LRU_keys_touch:
  assumes "lru_inv c" "0 < maxSize c"
    and "x = CacheSet k v \<or> (x = CacheGet k \<and> LRU_has c k)"
  shows "\<exists>n. LRU_keys (apply_cache_op c x) =
           filter (\<lambda>a. a \<noteq> k) (drop n (LRU_keys c)) @ [k]"
proof (cases "LRU_has c k")
  case True
  note mv = lru_move_to_end[OF True, of v]
  from mv obtain val where
    g: "LRU_get c k = (Some val, c\<lparr>cache := Map_delete (cache c) k @ [(k, val)]\<rparr>)"
    by blast
  have s: "cache (LRU_set c k v) = Map_delete (cache c) k @ [(k, v)]"
    using mv by (rule conjunct1)
  have "LRU_keys (apply_cache_op c x) = filter (\<lambda>a. a \<noteq> k) (drop 0 (LRU_keys c)) @ [k]"
  proof (cases "x = CacheSet k v")
    case set: True
    show ?thesis unfolding set by (simp add: LRU_keys_def Map_keys_def s map_fst_Map_delete)
  next
    case False
    with assms(3) have get: "x = CacheGet k" by simp
    show ?thesis unfolding get by (simp add: LRU_keys_def Map_keys_def g map_fst_Map_delete)
  qed
  then show ?thesis by (rule exI)
next
  case False
  with assms(3) have set: "x = CacheSet k v" by simp
  have nk: "k \<notin> set (map fst (cache c))"
    using False by (simp add: LRU_has_def Map_has_def)
  show ?thesis
  proof (cases "Map_size (cache c) < maxSize c")
    case True
    have nh: "\<not> Map_has (cache c) k" using False by (simp add: LRU_has_def)
    have s: "cache (LRU_set c k v) = cache c @ [(k, v)]"
      using nh True by (rule LRU_set_room)
    have "LRU_keys (apply_cache_op c x) = filter (\<lambda>a. a \<noteq> k) (drop 0 (LRU_keys c)) @ [k]"
      unfolding set using nk by (simp add: LRU_keys_def Map_keys_def s filter_absent)
    then show ?thesis by (rule exI)
  next
    case full: False
    have "length (cache c) \<le> maxSize c" using assms(1) by (simp add: lru_inv_def)
    with full have sz: "LRU_size c = maxSize c" by (simp add: LRU_size_def Map_size_def)
    have s: "cache (LRU_set c k v) = tl (cache c) @ [(k, v)]"
      using lru_evict_oldest[OF assms(1) sz assms(2) False, of v] by (rule conjunct1)
    have "set (tl (map fst (cache c))) \<subseteq> set (map fst (cache c))"
      by (cases "cache c") auto
    with nk have nk': "k \<notin> set (tl (map fst (cache c)))" by blast
    have "LRU_keys (apply_cache_op c x) = filter (\<lambda>a. a \<noteq> k) (drop 1 (LRU_keys c)) @ [k]"
      unfolding set using nk'
      by (simp add: LRU_keys_def Map_keys_def s map_tl drop_Suc filter_absent)
    then show ?thesis by (rule exI)
  qed
qed

lemma sorted_wrt_touch:
  assumes "sorted_wrt (\<lambda>a b. last_use ops a < last_use ops b) ks" and "key_of x = k"
  shows "sorted_wrt (\<lambda>a b. last_use (ops @ [x]) a < last_use (ops @ [x]) b)
           (filter (\<lambda>a. a \<noteq> k) (drop n ks) @ [k])"
proof -
  let ?P = "\<lambda>a b. last_use ops a < last_use ops b"
  let ?Q = "\<lambda>a b. last_use (ops @ [x]) a < last_use (ops @ [x]) b"
  let ?ks = "filter (\<lambda>a. a \<noteq> k) (drop n ks)"
  have "sorted_wrt ?P (drop n ks)" using assms(1) by (rule sorted_wrt_drop)
  then have p: "sorted_wrt ?P ?ks" by (rule sorted_wrt_filter)
  have same: "last_use (ops @ [x]) a = last_use ops a" if "a \<in> set ?ks" for a
    using that assms(2) by (auto simp: last_use_snoc)
  have q: "sorted_wrt ?Q ?ks"
    using p by (rule sorted_wrt_mono_rel[rotated]) (simp add: same)
  have last: "?Q a k" if "a \<in> set ?ks" for a
  proof -
    have "last_use (ops @ [x]) a = last_use ops a" using that by (rule same)
    also have "\<dots> \<le> length ops" by (rule last_use_le)
    also have "length ops < last_use (ops @ [x]) k" using assms(2) by (simp add: last_use_snoc)
    finally show ?thesis .
  qed
  show ?thesis using q last by (simp add: sorted_wrt_append)
qed

lemma sorted_wrt_untouched:
  assumes "sorted_wrt (\<lambda>a b. last_use ops a < last_use ops b) ks" and "key_of x \<notin> set ks"
  shows "sorted_wrt (\<lambda>a b. last_use (ops @ [x]) a < last_use (ops @ [x]) b) ks"
proof -
  have same: "last_use (ops @ [x]) a = last_use ops a" if "a \<in> set ks" for a
    using that assms(2) by (auto simp: last_use_snoc)
  show ?thesis
    using assms(1) by (rule sorted_wrt_mono_rel[rotated]) (simp add: same)
qed

lemma run_cache_ops_snoc:
  "run_cache_ops (ops @ [x]) c = apply_cache_op (run_cache_ops ops c) x"
  by (simp add: run_cache_ops_def)

text \<open>
  After any sequence of operations the entries stand in the order of their last use: the
  first entry is the least recently used one, the last entry the most recently used one.
\<close>

lemma lru_recency_order:
  assumes "lru_inv c0" "0 < maxSize c0" "cache c0 = []"
  shows "sorted_wrt (\<lambda>a b. last_use ops a < last_use ops b)
           (LRU_keys (run_cache_ops ops c0))"
proof (induction ops rule: rev_induct)
  case Nil
  show ?case using assms(3) by (simp add: run_cache_ops_def LRU_keys_def Map_keys_def)
next
  case (snoc x ops)
  let ?c = "run_cache_ops ops c0"
  let ?Q = "\<lambda>a b. last_use (ops @ [x]) a < last_use (ops @ [x]) b"
  have "lru_inv ?c \<and> maxSize ?c = maxSize c0" using assms(1,2) by (rule lru_inv_run)
  then have inv: "lru_inv ?c" and pos: "0 < maxSize ?c" using assms(2) by simp_all
  have touch: "sorted_wrt ?Q (LRU_keys (apply_cache_op ?c x))"
    if d: "x = CacheSet k v \<or> (x = CacheGet k \<and> LRU_has ?c k)" for k v
  proof -
    from LRU_keys_touch[OF inv pos d] obtain n where
      n: "LRU_keys (apply_cache_op ?c x) = filter (\<lambda>a. a \<noteq> k) (drop n (LRU_keys ?c)) @ [k]" ..
    have kx: "key_of x = k" using d by (cases x) auto
    have "sorted_wrt ?Q (filter (\<lambda>a. a \<noteq> k) (drop n (LRU_keys ?c)) @ [k])"
      using snoc.IH kx by (rule sorted_wrt_touch)
    then show ?thesis unfolding n .
  qed
  show ?case
  proof (cases x)
    case (CacheSet k v)
    then have "x = CacheSet k v \<or> (x = CacheGet k \<and> LRU_has ?c k)" by (rule disjI1)
    then have "sorted_wrt ?Q (LRU_keys (apply_cache_op ?c x))" by (rule touch)
    then show ?thesis unfolding run_cache_ops_snoc .
  next
    case (CacheGet k)
    show ?thesis
    proof (cases "LRU_has ?c k")
      case True
      with CacheGet have "x = CacheGet k \<and> LRU_has ?c k" by (intro conjI)
      then have "x = CacheSet k undefined \<or> (x = CacheGet k \<and> LRU_has ?c k)" by (rule disjI2)
      then have "sorted_wrt ?Q (LRU_keys (apply_cache_op ?c x))" by (rule touch)
      then show ?thesis unfolding run_cache_ops_snoc .
    next
      case False
      then have same: "apply_cache_op ?c x = ?c"
        unfolding CacheGet by (simp add: LRU_get_def LRU_has_def)
      have "key_of x \<notin> set (LRU_keys ?c)"
        using False unfolding CacheGet
        by (simp add: LRU_has_def Map_has_def LRU_keys_def Map_keys_def)
      with snoc.IH show ?thesis
        unfolding run_cache_ops_snoc same by (rule sorted_wrt_untouched)
    qed
  qed
qed

text \<open>
  Claim C2.  Starting from the empty cache of capacity 50, after any sequence of
  \<open>get\<close>/\<open>set\<close> operations:
  \<^item> the cache holds at most 50 entries;
  \<^item> its entries stand in the order of their last use, the least recently used one first
    and the most recently used one last;
  \<^item> a \<open>set\<close> or a \<open>get\<close> of a key that is present moves its entry to the end (the
    most-recently-used position) and keeps the other entries in their order;
  \<^item> a \<open>get\<close> of a key that is absent returns nothing and changes nothing;
  \<^item> a \<open>set\<close> of an absent key into a cache that has room appends the new entry and
    removes nothing;
  \<^item> a \<open>set\<close> of an absent key into the full cache removes exactly the first entry (the
    least-recently-used one) and appends the new one, the size staying 50.
\<close>

theorem lru_cache_bound_and_recency:
  fixes c :: "('k, 'v) LRUCache"
  assumes "c = run_cache_ops ops (LRUCache_new 50)"
  shows "LRU_size c \<le> 50 \<and>
    sorted_wrt (\<lambda>a b. last_use ops a < last_use ops b) (LRU_keys c) \<and>
    (LRU_has c k \<longrightarrow>
       cache (LRU_set c k v) = Map_delete (cache c) k @ [(k, v)] \<and>
       (\<exists>val. Map_get (cache c) k = Some val \<and>
          LRU_get c k = (Some val, c\<lparr>cache := Map_delete (cache c) k @ [(k, val)]\<rparr>))) \<and>
    (\<not> LRU_has c k \<longrightarrow> LRU_get c k = (None, c)) \<and>
    (LRU_size c < 50 \<and> \<not> LRU_has c k \<longrightarrow> cache (LRU_set c k v) = cache c @ [(k, v)]) \<and>
    (LRU_size c = 50 \<and> \<not> LRU_has c k \<longrightarrow>
       cache (LRU_set c k v) = tl (cache c) @ [(k, v)] \<and> LRU_size (LRU_set c k v) = 50)"
proof -
  let ?new = "LRUCache_new 50 :: ('k, 'v) LRUCache"
  have new: "lru_inv ?new" by (simp add: lru_inv_def LRUCache_new_def)
  have new2: "0 < maxSize ?new" by (simp add: LRUCache_new_def)
  have new3: "cache ?new = []" by (simp add: LRUCache_new_def)
  have "lru_inv (run_cache_ops ops ?new) \<and> maxSize (run_cache_ops ops ?new) = maxSize ?new"
    using new new2 by (rule lru_inv_run)
  then have inv: "lru_inv c" and cap: "maxSize c = 50"
    unfolding assms by (simp_all add: LRUCache_new_def)
  have bound: "LRU_size c \<le> 50"
    using inv unfolding lru_inv_def LRU_size_def Map_size_def cap by simp
  have order: "sorted_wrt (\<lambda>a b. last_use ops a < last_use ops b) (LRU_keys c)"
    unfolding assms using new new2 new3 by (rule lru_recency_order)
  have pos: "0 < maxSize c" unfolding cap by simp
  have evict: "cache (LRU_set c k v) = tl (cache c) @ [(k, v)] \<and> LRU_size (LRU_set c k v) = 50"
    if a: "LRU_size c = 50 \<and> \<not> LRU_has c k"
  proof -
    from a have "LRU_size c = maxSize c" unfolding cap by (rule conjunct1)
    moreover from a have "\<not> LRU_has c k" by (rule conjunct2)
    ultimately have "cache (LRU_set c k v) = tl (cache c) @ [(k, v)] \<and>
        LRU_size (LRU_set c k v) = maxSize c"
      using inv pos by (intro lru_evict_oldest)
    then show ?thesis unfolding cap .
  qed
  show ?thesis
  proof (intro conjI impI)
    show "LRU_size c \<le> 50" by (rule bound)
  next
    show "sorted_wrt (\<lambda>a b. last_use ops a < last_use ops b) (LRU_keys c)" by (rule order)
  next
    assume "LRU_has c k"
    then show "cache (LRU_set c k v) = Map_delete (cache c) k @ [(k, v)]"
      by (rule lru_move_to_end[THEN conjunct1])
  next
    assume "LRU_has c k"
    then show "\<exists>val. Map_get (cache c) k = Some val \<and>
          LRU_get c k = (Some val, c\<lparr>cache := Map_delete (cache c) k @ [(k, val)]\<rparr>)"
      by (rule lru_move_to_end[THEN conjunct2])
  next
    assume "\<not> LRU_has c k"
    then show "LRU_get c k = (None, c)" by (simp add: LRU_get_def LRU_has_def)
  next
    assume a: "LRU_size c < 50 \<and> \<not> LRU_has c k"
    then have "\<not> Map_has (cache c) k" by (simp add: LRU_has_def)
    moreover from a have "Map_size (cache c) < maxSize c" unfolding cap by (simp add: LRU_size_def)
    ultimately show "cache (LRU_set c k v) = cache c @ [(k, v)]" by (rule LRU_set_room)
  next
    assume "LRU_size c = 50 \<and> \<not> LRU_has c k"
    then show "cache (LRU_set c k v) = tl (cache c) @ [(k, v)]"
      by (rule evict[THEN conjunct1])
  next
    assume "LRU_size c = 50 \<and> \<not> LRU_has c k"
    then show "LRU_size (LRU_set c k v) = 50"
      by (rule evict[THEN conjunct2])
  qed
qed

theorem lru_cache_bound_and_recency_witness:
  "(let ops = map (\<lambda>i. CacheSet i (i + 100)) [0..<50];
        c = run_cache_ops ops (LRUCache_new 50)
    in LRU_size c \<le> 50 \<and>
       sorted_wrt (\<lambda>a b. last_use ops a < last_use ops b) (LRU_keys c) \<and>
       LRU_keys c = [0..<50] \<and>
       LRU_has c (0::nat) \<and>
       cache (LRU_set c 0 (7::nat)) = Map_delete (cache c) 0 @ [(0, 7)] \<and>
       LRU_get c 0 = (Some 100, c\<lparr>cache := Map_delete (cache c) 0 @ [(0, 100)]\<rparr>) \<and>
       LRU_size c = 50 \<and> \<not> LRU_has c 50 \<and>
       LRU_get c 50 = (None, c) \<and>
       cache (LRU_set c 50 7) = tl (cache c) @ [(50, 7)]) \<and>
   (let c = run_cache_ops [CacheSet (0::nat) (100::nat), CacheSet 1 101, CacheGet 0]
              (LRUCache_new 50)
    in LRU_size c < 50 \<and> \<not> LRU_has c 2 \<and>
       cache c = [(1, 101), (0, 100)] \<and>
       cache (LRU_set c 2 102) = [(1, 101), (0, 100), (2, 102)]) \<and>
   (let c = run_cache_ops (map (\<lambda>i. CacheSet i (i + 100)) [0..<50] @ [CacheGet 0])
              (LRUCache_new 50)
    in LRU_size c = 50 \<and> \<not> LRU_has c (50::nat) \<and>
       hd (LRU_keys c) = 1 \<and> last (LRU_keys c) = 0 \<and>
       cache (LRU_set c 50 (7::nat)) = tl (cache c) @ [(50, 7)])"
proof -
  define ops :: "(nat, nat) cache_op list" where "ops = map (\<lambda>i. CacheSet i (i + 100)) [0..<50]"
  define c where "c = run_cache_ops ops (LRUCache_new 50)"
  have c_eq: "cache c = map (\<lambda>i. (i, i + 100)) [0..<50]"
    unfolding c_def ops_def by code_simp
  have keys: "map fst (cache c) = [0..<50]"
    unfolding c_eq by (simp add: comp_def)
  have keys': "LRU_keys c = [0..<50]" unfolding LRU_keys_def Map_keys_def by (rule keys)
  have has0: "LRU_has c 0" unfolding LRU_has_def Map_has_def keys by simp
  have has50: "\<not> LRU_has c 50" unfolding LRU_has_def Map_has_def keys by simp
  have size: "LRU_size c = 50" unfolding LRU_size_def Map_size_def c_eq by simp
  have get0: "Map_get (cache c) 0 = Some 100"
    unfolding c_eq Map_get_def by code_simp
  note a = lru_cache_bound_and_recency[OF c_def, of 0 7]
  note b = lru_cache_bound_and_recency[OF c_def, of 50 7]
  have 1: "LRU_size c \<le> 50" using a by (rule conjunct1)
  have o: "sorted_wrt (\<lambda>a b. last_use ops a < last_use ops b) (LRU_keys c)"
    using a by (rule conjunct2[THEN conjunct1])
  have 2: "cache (LRU_set c 0 7) = Map_delete (cache c) 0 @ [(0, 7)]"
    using a has0 by simp
  have 3: "LRU_get c 0 = (Some 100, c\<lparr>cache := Map_delete (cache c) 0 @ [(0, 100)]\<rparr>)"
    using a has0 get0 by simp
  have 4: "cache (LRU_set c 50 7) = tl (cache c) @ [(50, 7)]"
    using b has50 size by simp
  have 5: "LRU_get c 50 = (None, c)"
    using b has50 by simp
  have first: "(let ops = map (\<lambda>i. CacheSet i (i + 100)) [0..<50];
        c = run_cache_ops ops (LRUCache_new 50)
    in LRU_size c \<le> 50 \<and>
       sorted_wrt (\<lambda>a b. last_use ops a < last_use ops b) (LRU_keys c) \<and>
       LRU_keys c = [0..<50] \<and>
       LRU_has c (0::nat) \<and>
       cache (LRU_set c 0 (7::nat)) = Map_delete (cache c) 0 @ [(0, 7)] \<and>
       LRU_get c 0 = (Some 100, c\<lparr>cache := Map_delete (cache c) 0 @ [(0, 100)]\<rparr>) \<and>
       LRU_size c = 50 \<and> \<not> LRU_has c 50 \<and>
       LRU_get c 50 = (None, c) \<and>
       cache (LRU_set c 50 7) = tl (cache c) @ [(50, 7)])"
    unfolding Let_def ops_def[symmetric] c_def[symmetric]
    using 1 o keys' has0 2 3 size has50 5 4 by (intro conjI)
  define c3 :: "(nat, nat) LRUCache"
    where "c3 = run_cache_ops [CacheSet 0 100, CacheSet 1 101, CacheGet 0] (LRUCache_new 50)"
  have c3_eq: "cache c3 = [(1, 101), (0, 100)]" unfolding c3_def by code_simp
  have size3: "LRU_size c3 < 50" unfolding LRU_size_def Map_size_def c3_eq by simp
  have has3: "\<not> LRU_has c3 2" unfolding LRU_has_def Map_has_def c3_eq by simp
  have "cache (LRU_set c3 2 102) = cache c3 @ [(2, 102)]"
    using lru_cache_bound_and_recency[OF c3_def, of 2 102] size3 has3 by simp
  then have room3: "cache (LRU_set c3 2 102) = [(1, 101), (0, 100), (2, 102)]"
    unfolding c3_eq by simp
  have second: "(let c = run_cache_ops [CacheSet (0::nat) (100::nat), CacheSet 1 101, CacheGet 0]
              (LRUCache_new 50)
    in LRU_size c < 50 \<and> \<not> LRU_has c 2 \<and>
       cache c = [(1, 101), (0, 100)] \<and>
       cache (LRU_set c 2 102) = [(1, 101), (0, 100), (2, 102)])"
    unfolding Let_def c3_def[symmetric]
    using size3 has3 c3_eq room3 by (intro conjI)
  define c4 :: "(nat, nat) LRUCache"
    where "c4 = run_cache_ops (map (\<lambda>i. CacheSet i (i + 100)) [0..<50] @ [CacheGet 0])
                  (LRUCache_new 50)"
  have c4_eq: "cache c4 = map (\<lambda>i. (i, i + 100)) ([1..<50] @ [0])"
    unfolding c4_def by code_simp
  have keys4: "map fst (cache c4) = [1..<50] @ [0]"
    unfolding c4_eq by (simp add: comp_def)
  have size4: "LRU_size c4 = 50" unfolding LRU_size_def Map_size_def c4_eq by simp
  have has4: "\<not> LRU_has c4 50" unfolding LRU_has_def Map_has_def keys4 by simp
  have hd4: "hd (LRU_keys c4) = 1" unfolding LRU_keys_def Map_keys_def keys4 by code_simp
  have last4: "last (LRU_keys c4) = 0" unfolding LRU_keys_def Map_keys_def keys4 by code_simp
  have evict4: "cache (LRU_set c4 50 7) = tl (cache c4) @ [(50, 7)]"
    using lru_cache_bound_and_recency[OF c4_def, of 50 7] size4 has4 by simp
  have third: "(let c = run_cache_ops (map (\<lambda>i. CacheSet i (i + 100)) [0..<50] @ [CacheGet 0])
              (LRUCache_new 50)
    in LRU_size c = 50 \<and> \<not> LRU_has c (50::nat) \<and>
       hd (LRU_keys c) = 1 \<and> last (LRU_keys c) = 0 \<and>
       cache (LRU_set c 50 (7::nat)) = tl (cache c) @ [(50, 7)])"
    unfolding Let_def c4_def[symmetric]
    using size4 has4 hd4 last4 evict4 by (intro conjI)
  from first second third show ?thesis by (intro conjI)
qed

section \<open>Properties of the mapping service\<close>

lemma fetchMapping_miss:
  assumes "\<not> LRU_has (svc_cache s) (cacheKey_of u i)"
    and "\<not> Map_has (pendingRequests s) (cacheKey_of u i)"
  shows "fetchMapping s cid u i =
     s\<lparr>stats := (stats s)\<lparr>cacheMisses := cacheMisses (stats s) + 1\<rparr>,
       timeout := Some (u, i, cacheKey_of u i),
       pendingRequests := pendingRequests s @ [(cacheKey_of u i, Undefined)],
       awaiting := awaiting s @ [(cid, cacheKey_of u i, Undefined)]\<rparr>"
  using assms by (simp add: fetchMapping_def debouncedFetch_def Map_set_def Let_def)

text \<open>
  Whatever the state, a call of \<open>fetchMapping\<close> for a key that is neither cached nor
  pending is resolved with \<open>undefined\<close> as soon as the microtasks run: before the timer
  fires, hence before any request is issued and whatever its outcome will be.
\<close>

lemma fetchMapping_miss_resolves_undefined:
  assumes "\<not> LRU_has (svc_cache s) (cacheKey_of u i)"
    and "\<not> Map_has (pendingRequests s) (cacheKey_of u i)"
    and "awaiting s = []"
  shows "resolved (run [Call cid u i, Tick] s) = resolved s @ [(cid, Undefined)]"
    and "requests (run [Call cid u i, Tick] s) = requests s"
  using assms
  by (simp_all add: run_def fetchMapping_miss drain_microtasks_def fetchMapping_resume_def)

text \<open>
  Claim C1 (not met by the code).  The claim: a call of \<open>fetchMapping\<close> whose key is not
  cached and whose fetch fails resolves with an empty field registry.  The code: the
  debounced wrapper returns \<open>undefined\<close>, so the call resolves with \<open>undefined\<close>; the
  empty object that \<open>_fetchMapping\<close> returns on a failure is dropped by the timer
  callback.  Evaluated on the fresh service, for a transport error, a non-2xx status and a
  malformed body: the caller gets \<open>undefined\<close>, which is not the empty registry, while
  \<open>_fetchMapping\<close> itself returns the empty registry.
\<close>

theorem fetchMapping_failure_resolves_undefined:
  "resolved (run [Call 1 ''http://es:9200'' ''logs'', Tick, TimerFires,
                  FetchCompletes 0 TransportError] ESMappingService_new) = [(1, Undefined)] \<and>
   resolved (run [Call 1 ''http://es:9200'' ''logs'', Tick, TimerFires,
                  FetchCompletes 0 (HttpStatus 503)] ESMappingService_new) = [(1, Undefined)] \<and>
   resolved (run [Call 1 ''http://es:9200'' ''logs'', Tick, TimerFires,
                  FetchCompletes 0 MalformedBody] ESMappingService_new) = [(1, Undefined)] \<and>
   Undefined \<noteq> Object [] \<and>
   fst (fetchMapping_finish ESMappingService_new ''http://es:9200#logs'' TransportError) = Object []"
  by code_simp

text \<open>
  Claim C3 (not met by the code).  The claim: two concurrent calls of \<open>fetchMapping\<close> for
  the same uncached key issue exactly one outbound fetch and both resolve to the identical
  result object.  The code, first scenario: both calls are made in the same synchronous
  block; one request is issued and it yields the fields of the index, which are cached, but
  both callers were resolved with \<open>undefined\<close>.  Second scenario: the second call is made
  after the timer of the first has fired and while its request is still in flight; the
  pending entry is gone by then, a second timer is armed, and two requests for the same key
  are in flight together.
\<close>

theorem fetchMapping_concurrent_calls:
  "(let s = run [Call 1 ''http://es:9200'' ''logs'', Call 2 ''http://es:9200'' ''logs'', Tick,
                 TimerFires, FetchCompletes 0 (Parsed logs_fields)] ESMappingService_new
    in requests s = [''http://es:9200/logs/_mapping''] \<and>
       Map_get (cache (svc_cache s)) ''http://es:9200#logs'' = Some (Object logs_fields) \<and>
       resolved s = [(2, Undefined), (1, Undefined)] \<and>
       pendingRequests s = []) \<and>
   (let s = run [Call 1 ''http://es:9200'' ''logs'', Tick, TimerFires,
                 Call 2 ''http://es:9200'' ''logs'', Tick, TimerFires] ESMappingService_new
    in in_flight s = [(''http://es:9200/logs/_mapping'', ''http://es:9200#logs''),
                      (''http://es:9200/logs/_mapping'', ''http://es:9200#logs'')] \<and>
       fetchCount (stats s) = 2)"
  by code_simp

lemma clearIndexCache_raises:
  "clearIndexCache s u i = Inl (TypeError ''this.cache.delete is not a function'')"
  by (simp add: clearIndexCache_def call_LRUCache_def LRUCache_property_def)

text \<open>
  Claim C4 (not met by the code).  The claim: \<open>clearIndexCache\<close> removes the one cache
  entry of its endpoint and index pattern and returns without raising.  The code calls
  \<open>this.cache.delete\<close>, and \<open>LRUCache\<close> has no \<open>delete\<close> method: the call raises a
  TypeError and the entry stays.  Evaluated on the service that has cached the fields of
  \<open>logs\<close>.
\<close>

theorem clearIndexCache_cached_key_raises:
  "(let s = run [Call 1 ''http://es:9200'' ''logs'', Tick, TimerFires,
                 FetchCompletes 0 (Parsed logs_fields)] ESMappingService_new
    in LRU_has (svc_cache s) (cacheKey_of ''http://es:9200'' ''logs'') \<and>
       clearIndexCache s ''http://es:9200'' ''logs'' =
         Inl (TypeError ''this.cache.delete is not a function''))"
  by code_simp

section \<open>Properties of getFieldType\<close>

lemma split_on_nonempty: "split_on c s \<noteq> []"
  by (induction s) (auto split: list.splits)

lemma join_split: "join_with [c] (split_on c s) = s"
proof (induction s)
  case Nil
  then show ?case by simp
next
  case (Cons x xs)
  obtain p ps where e: "split_on c xs = p # ps"
    using split_on_nonempty[of c xs] by (cases "split_on c xs") auto
  show ?case
  proof (cases "x = c")
    case True
    with e Cons show ?thesis by simp
  next
    case False
    with e Cons show ?thesis by (cases ps) auto
  qed
qed

lemma prototype_property_no_dot:
  "p \<in> set Object_prototype_properties \<Longrightarrow> CHR ''.'' \<notin> set p"
  by (auto simp: Object_prototype_properties_def)

lemma join_two_has_sep: "c \<in> set (join_with [c] (p # q # ps))"
  by simp

lemma join_take_has_dot:
  assumes "2 \<le> j" "j \<le> length parts"
  shows "c \<in> set (join_with [c] (take j parts))"
proof -
  obtain p q ps where "take j parts = p # q # ps"
  proof (cases "take j parts")
    case Nil
    then show ?thesis using assms by simp
  next
    case (Cons a as)
    then have "length (a # as) = j" using assms by (metis length_take min.absorb2)
    then obtain b bs where "as = b # bs" using assms(1) by (cases as) auto
    with Cons that show ?thesis by blast
  qed
  then show ?thesis by simp
qed

lemma FieldInfo_property_name_no_dot:
  "name \<in> set [''type'', ''analyzer'', ''search_analyzer'', ''normalizer'', ''format'',
     ''isNested'', ''hasProperties'', ''multiFields'', ''isMultiField'', ''parentField''] \<Longrightarrow>
   CHR ''.'' \<notin> set name"
  by auto

lemma FieldInfo_property_no_dot:
  assumes "CHR ''.'' \<in> set name"
  shows "FieldInfo_property info name = None"
proof -
  have "name \<notin> set [''type'', ''analyzer'', ''search_analyzer'', ''normalizer'', ''format'',
     ''isNested'', ''hasProperties'', ''multiFields'', ''isMultiField'', ''parentField'']"
    using assms FieldInfo_property_name_no_dot by blast
  then show ?thesis by (simp add: FieldInfo_property_def)
qed

lemma get_property_stored: "map_of flds name = Some info \<Longrightarrow> get_property flds name = Own info"
  by (simp add: get_property_def)

text \<open>A dotted path is inherited from nowhere: it reads the stored entry or nothing.\<close>

lemma get_property_dotted:
  assumes "CHR ''.'' \<in> set name" "map_of flds name = None"
  shows "get_property flds name = Missing"
proof -
  have "name \<notin> set Object_prototype_properties"
    using assms(1) prototype_property_no_dot by blast
  then have 1: "Object_prototype_property name = Missing"
    by (simp add: Object_prototype_property_def)
  have 2: "FieldInfo_property proto name = None" for proto
    using assms(1) by (rule FieldInfo_property_no_dot)
  show ?thesis
    using assms(2) 1 2 by (simp add: get_property_def split: option.splits)
qed

text \<open>
  The registry of a mapping whose only top-level field is named \<open>__proto__\<close>: the
  field is read under its name, the properties of its entry are read as properties of the
  registry, and the members of \<open>Object.prototype\<close> are still inherited.
\<close>

lemma get_property_replaced_prototype:
  "get_property [(''__proto__'', leaf_field ''text'')] ''__proto__'' = Own (leaf_field ''text'') \<and>
   get_property [(''__proto__'', leaf_field ''text'')] ''type'' =
     Prototype_field (StringValue ''text'') \<and>
   get_property [(''__proto__'', leaf_field ''text'')] ''isNested'' =
     Prototype_field (BooleanValue False) \<and>
   get_property [(''__proto__'', leaf_field ''text'')] ''analyzer'' = Missing \<and>
   get_property [(''__proto__'', leaf_field ''text'')] ''toString'' = Inherited ''toString''"
  by code_simp

text \<open>
  The condition under which the lookup cannot meet an inherited member: the first
  dot-segment of the field name is stored in the registry, or the registry reads nothing
  truthy under it.  Every other path the lookup tries is dotted.
\<close>

lemma prefix_truthy_iff_stored:
  assumes "map_of flds (hd parts) \<noteq> None \<or> \<not> truthy_property (get_property flds (hd parts))"
    and "1 \<le> j" "j \<le> length parts"
  shows "truthy_property (get_property flds (join_with ''.'' (take j parts))) \<longleftrightarrow>
         map_of flds (join_with ''.'' (take j parts)) \<noteq> None"
proof (cases "map_of flds (join_with ''.'' (take j parts))")
  case (Some info)
  then show ?thesis by (simp add: get_property_stored truthy_property_def)
next
  case None
  show ?thesis
  proof (cases "j = 1")
    case True
    from assms(3) True obtain p ps where "parts = p # ps" by (cases parts) auto
    with True have "join_with ''.'' (take j parts) = hd parts" by simp
    with None assms(1) show ?thesis by simp
  next
    case False
    with assms(2) have "2 \<le> j" by simp
    then have "CHR ''.'' \<in> set (join_with ''.'' (take j parts))"
      using assms(3) by (rule join_take_has_dot)
    then have "get_property flds (join_with ''.'' (take j parts)) = Missing"
      using None by (rule get_property_dotted)
    with None show ?thesis by (simp add: truthy_property_def)
  qed
qed

lemma getFieldType_loop_find:
  assumes "map_of flds (hd parts) \<noteq> None \<or> \<not> truthy_property (get_property flds (hd parts))"
  shows "i \<le> length parts \<Longrightarrow>
     getFieldType_loop flds parts i =
       found flds (map (\<lambda>j. join_with ''.'' (take j parts)) (rev [1..<Suc i]))"
proof (induction i)
  case 0
  then show ?case by (simp add: found_def)
next
  case (Suc i)
  let ?path = "join_with ''.'' (take (Suc i) parts)"
  have iff: "truthy_property (get_property flds ?path) \<longleftrightarrow> map_of flds ?path \<noteq> None"
    using assms _ Suc.prems by (rule prefix_truthy_iff_stored) simp
  have IH: "getFieldType_loop flds parts i =
       found flds (map (\<lambda>j. join_with ''.'' (take j parts)) (rev [1..<Suc i]))"
    using Suc by simp
  have up: "rev [1..<Suc (Suc i)] = Suc i # rev [1..<Suc i]" by simp
  show ?case
  proof (cases "map_of flds ?path")
    case None
    then have "\<not> truthy_property (get_property flds ?path)" using iff by simp
    then show ?thesis
      unfolding up using None IH by (simp add: found_def)
  next
    case (Some info)
    then have "get_property flds ?path = Own info" by (rule get_property_stored)
    then show ?thesis
      unfolding up using Some by (simp add: truthy_property_def found_def)
  qed
qed

lemma found_resolve:
  "found flds (fieldName # stripped_paths fieldName) =
     (case resolve flds fieldName of Some info \<Rightarrow> Own info | None \<Rightarrow> Missing)"
proof (cases "find (\<lambda>p. map_of flds p \<noteq> None) (fieldName # stripped_paths fieldName)")
  case None
  then show ?thesis by (simp add: found_def resolve_def)
next
  case (Some p)
  then have "map_of flds p \<noteq> None" by (metis (mono_tags, lifting) find_Some_iff)
  then obtain info where "map_of flds p = Some info" by auto
  with Some show ?thesis by (simp add: found_def resolve_def)
qed

text \<open>
  The lookup contract: the entry of the exact path when the registry stores it, otherwise
  the entry of the longest stored ancestor path, otherwise none.  \<open>getFieldType\<close> meets
  it for every registry and every field name whose first dot-segment is stored in the
  registry or reads as nothing truthy there; so it does for every name that the registry
  stores, whatever the name, and for every name whose first segment is not a member of
  the prototype chain.
\<close>

lemma getFieldType_resolve:
  assumes "map_of flds (hd (split_on CHR ''.'' fieldName)) \<noteq> None \<or>
           \<not> truthy_property (get_property flds (hd (split_on CHR ''.'' fieldName)))"
  shows "getFieldType flds fieldName =
     (case resolve flds fieldName of Some info \<Rightarrow> Own info | None \<Rightarrow> Missing)"
proof -
  let ?parts = "split_on CHR ''.'' fieldName"
  have ne: "?parts \<noteq> []" by (rule split_on_nonempty)
  then have len: "1 \<le> length ?parts" by (cases ?parts) auto
  have full: "join_with ''.'' (take (length ?parts) ?parts) = fieldName"
    by (simp add: join_split)
  have iff: "truthy_property (get_property flds fieldName) \<longleftrightarrow> map_of flds fieldName \<noteq> None"
    using prefix_truthy_iff_stored[OF assms len order_refl] unfolding full .
  have lst: "map (\<lambda>j. join_with ''.'' (take j ?parts)) (rev [1..<Suc (length ?parts)]) =
      fieldName # stripped_paths fieldName"
    using len full by (simp add: stripped_paths_def Let_def)
  have loop: "getFieldType_loop flds ?parts (length ?parts) =
      found flds (fieldName # stripped_paths fieldName)"
    using getFieldType_loop_find[OF assms order_refl] lst by simp
  show ?thesis
  proof (cases "map_of flds fieldName")
    case None
    then have "\<not> truthy_property (get_property flds fieldName)" using iff by simp
    then have "getFieldType flds fieldName = found flds (fieldName # stripped_paths fieldName)"
      using loop by (simp add: getFieldType_def Let_def)
    then show ?thesis by (simp add: found_resolve)
  next
    case (Some info)
    then have "get_property flds fieldName = Own info" by (rule get_property_stored)
    then have "getFieldType flds fieldName = Own info"
      by (simp add: getFieldType_def truthy_property_def)
    moreover have "resolve flds fieldName = Some info"
      using Some by (simp add: resolve_def)
    ultimately show ?thesis by simp
  qed
qed

text \<open>
  The two lookups of the specification's example: in the registry that contains only
  \<open>a.b\<close>, \<open>a.b.c\<close> resolves to the entry of \<open>a.b\<close> and \<open>x\<close> to none.
\<close>

lemma getFieldType_fallback_examples:
  "getFieldType [(''a.b'', info)] ''a.b.c'' = Own info \<and>
   getFieldType [(''a.b'', info)] ''x'' = Missing"
  by (simp add: getFieldType_def get_property_def truthy_property_def
      Object_prototype_property_def Object_prototype_properties_def Let_def)

text \<open>
  Claim C6 (not met by the code).  The claim says that for every registry and field name
  \<open>getFieldType\<close> returns the entry of the exact path, else the entry of the longest
  stored ancestor path, else none.  The registry is a plain object and the lookup tests
  \<open>fields[path]\<close> for truthiness only, never for an own property.  The registry that
  contains only \<open>a.b\<close> stores neither \<open>toString\<close> nor \<open>constructor.name\<close> nor
  an ancestor of either, so the contract gives none for both names; \<open>getFieldType\<close>
  returns a method inherited from \<open>Object.prototype\<close> for both, the second one through
  the ancestor fallback.
\<close>

theorem getFieldType_returns_inherited_method:
  "resolve [(''a.b'', leaf_field ''text'')] ''toString'' = None \<and>
   getFieldType [(''a.b'', leaf_field ''text'')] ''toString'' = Inherited ''toString'' \<and>
   resolve [(''a.b'', leaf_field ''text'')] ''constructor.name'' = None \<and>
   getFieldType [(''a.b'', leaf_field ''text'')] ''constructor.name'' = Inherited ''constructor''"
  by code_simp

section \<open>Properties of the validator\<close>

lemma length_split_on: "length (split_on c s) = Suc (count_list s c)"
proof (induction s)
  case Nil
  then show ?case by simp
next
  case (Cons x xs)
  obtain p ps where e: "split_on c xs = p # ps"
    using split_on_nonempty[of c xs] by (cases "split_on c xs") auto
  with Cons show ?case by auto
qed

lemma split_on_single: "split_on c s = [p] \<Longrightarrow> c \<notin> set s"
proof -
  assume "split_on c s = [p]"
  then have "length (split_on c s) = 1" by simp
  then have "count_list s c = 0" by (simp add: length_split_on)
  then show ?thesis by (simp add: count_list_0_iff)
qed

lemma split_on_many: "split_on c s = p # q # ps \<Longrightarrow> c \<in> set s"
proof -
  assume "split_on c s = p # q # ps"
  then have "length (split_on c s) = Suc (Suc (length ps))" by simp
  then have "count_list s c \<noteq> 0" by (simp add: length_split_on)
  then show ?thesis by (simp add: count_list_0_iff)
qed







subsection \<open>The offset read from the message\<close>















lemma validate_document_scenario_D:
  "validate_document currentFields scenario_D_document =
     ([large_size_info, deep_pagination_info], None)"
  by (simp add: validate_document_def scenario_D_document_def validateTopLevel_def
      is_object_def entries_def validTopLevelFields_def ok_def and_then_def get_prop_def
      or_else_def truthy_opt_def validateCommonFields_def Number_isInteger_def int_of_def
      push_def large_size_info_def deep_pagination_info_def)

text \<open>
  Claim C7, as amended.  Validating the document \<open>{"size": 50000, "from": 0}\<close>, which
  has no query clause, yields exactly two findings, both of severity info: the one about
  the large size value and the one about \<open>from + size\<close> exceeding 10000.  No error and
  no warning is produced.
\<close>

theorem validate_scenario_D:
  assumes "JSON_parse scenario_D_text = Inr scenario_D_document"
  shows "validate JSON_parse currentFields scenario_D_text =
           [large_size_info, deep_pagination_info] \<and>
         map severity (validate JSON_parse currentFields scenario_D_text) = [Info, Info]"
  using assms
  by (simp add: validate_def validate_document_scenario_D large_size_info_def
      deep_pagination_info_def finding_plain_def)

theorem validate_scenario_D_witness:
  "scenario_D_parser scenario_D_text = Inr scenario_D_document \<and>
   validate scenario_D_parser [] scenario_D_text = [large_size_info, deep_pagination_info] \<and>
   map severity (validate scenario_D_parser [] scenario_D_text) = [Info, Info]"
proof -
  have h: "scenario_D_parser scenario_D_text = Inr scenario_D_document"
    by (simp add: scenario_D_parser_def)
  from validate_scenario_D[of scenario_D_parser "[]"] h show ?thesis by blast
qed

text \<open>
  Claim C7 as stated asks for exactly one info finding; the parsed document gets two.
\<close>

theorem validate_scenario_D_counterexample:
  "map severity (fst (validate_document [] scenario_D_document)) = [Info, Info]"
  by code_simp

subsection \<open>Field-existence checks\<close>

lemma and_then_ok [simp]: "and_then ok b = b"
  by (simp add: and_then_def ok_def)

lemma and_then_push [simp]: "and_then (push f) b = (f # fst b, snd b)"
  by (simp add: and_then_def push_def)

lemma and_then_throw [simp]: "and_then (throw e) b = throw e"
  by (simp add: and_then_def throw_def)

lemma snd_and_then: "snd a = None \<Longrightarrow> snd b = None \<Longrightarrow> snd (and_then a b) = None"
  by (simp add: and_then_def)

lemma fst_and_then: "snd a = None \<Longrightarrow> fst (and_then a b) = fst a @ fst b"
  by (simp add: and_then_def)

lemma snd_ok [simp]: "snd ok = None"
  by (simp add: ok_def)

lemma snd_push [simp]: "snd (push f) = None"
  by (simp add: push_def)

lemma fst_push [simp]: "fst (push f) = [f]"
  by (simp add: push_def)

lemma fst_ok [simp]: "fst ok = []"
  by (simp add: ok_def)

lemma in_order_no_throw:
  "\<forall>x\<in>set xs. snd (f x) = None \<Longrightarrow>
   in_order (map f xs) = (concat (map (\<lambda>x. fst (f x)) xs), None)"
  by (induction xs) (simp_all add: ok_def and_then_def)

lemma in_order_member:
  assumes "\<forall>x\<in>set xs. snd (f x) = None" "x \<in> set xs" "w \<in> set (fst (f x))"
  shows "w \<in> set (fst (in_order (map f xs)))"
  using assms by (auto simp: in_order_no_throw)

lemma validateMatchOptions_no_throw: "snd (validateMatchOptions opts p) = None"
proof -
  have "in_order (map (\<lambda>(option, val).
       and_then
         (if option \<notin> set validMatchOptions then
            push (finding_at Warning (''Unknown match query option: '' @ quoted option)
                    (p @ [Key option]))
          else ok)
         (if option = ''operator'' \<and> val \<notin> set [JStr ''and'', JStr ''or''] then
            push (finding_at Error
                    (''operator must be '' @ quoted ''and'' @ '' or '' @ quoted ''or'' @
                     '', got '' @ quoted (ToString val))
                    (p @ [Key option]))
          else ok)) (entries opts)) = (concat (map (\<lambda>x. fst ((\<lambda>(option, val).
       and_then
         (if option \<notin> set validMatchOptions then
            push (finding_at Warning (''Unknown match query option: '' @ quoted option)
                    (p @ [Key option]))
          else ok)
         (if option = ''operator'' \<and> val \<notin> set [JStr ''and'', JStr ''or''] then
            push (finding_at Error
                    (''operator must be '' @ quoted ''and'' @ '' or '' @ quoted ''or'' @
                     '', got '' @ quoted (ToString val))
                    (p @ [Key option]))
          else ok)) x)) (entries opts)), None)"
    by (rule in_order_no_throw) (auto simp: snd_and_then)
  then show ?thesis by (simp add: validateMatchOptions_def)
qed

lemma validateMatchQuery_warns:
  assumes "is_object q" "(fieldName, v) \<in> set (entries q)"
    and "get_property currentFields fieldName = Missing"
  shows "field_not_found fieldName (p @ [Key fieldName]) \<in>
           set (fst (validateMatchQuery currentFields q p))"
proof -
  let ?f = "\<lambda>(fieldName, fieldValue).
             and_then
               (if \<not> truthy_property (get_property currentFields fieldName) then
                  push (field_not_found fieldName (p @ [Key fieldName]))
                else ok)
               (if is_object fieldValue then
                  validateMatchOptions fieldValue (p @ [Key fieldName])
                else ok)"
  have ne: "length (Object_keys q) \<noteq> 0" using assms(2) by (auto simp: Object_keys_def)
  have eq: "validateMatchQuery currentFields q p = in_order (map ?f (entries q))"
    using assms(1) ne by (simp add: validateMatchQuery_def)
  have nt: "\<forall>x\<in>set (entries q). snd (?f x) = None"
    by (auto simp: snd_and_then validateMatchOptions_no_throw)
  have w: "field_not_found fieldName (p @ [Key fieldName]) \<in> set (fst (?f (fieldName, v)))"
    using assms(3) by (simp add: truthy_property_def)
  show ?thesis unfolding eq using nt assms(2) w by (rule in_order_member)
qed

lemma validateTermQuery_warns:
  assumes "is_object q" "(fieldName, v) \<in> set (entries q)"
    and "get_property currentFields fieldName = Missing"
  shows "field_not_found fieldName (p @ [Key fieldName]) \<in>
           set (fst (validateTermQuery currentFields q p))"
proof -
  let ?f = "\<lambda>(fieldName, fieldValue).
             and_then
               (if \<not> truthy_property (get_property currentFields fieldName) then
                  push (field_not_found fieldName (p @ [Key fieldName]))
                else ok)
               (if fieldValue = JNull \<or> (is_object fieldValue \<and> \<not> isArray fieldValue) then
                  push (finding_at Error
                          (''term query value for '' @ quoted fieldName @
                           '' should be a simple value or array'')
                          (p @ [Key fieldName]))
                else ok)"
  have eq: "validateTermQuery currentFields q p = in_order (map ?f (entries q))"
    using assms(1) by (simp add: validateTermQuery_def)
  have nt: "\<forall>x\<in>set (entries q). snd (?f x) = None"
    by (auto simp: snd_and_then)
  have w: "field_not_found fieldName (p @ [Key fieldName]) \<in> set (fst (?f (fieldName, v)))"
    using assms(3) by (simp add: truthy_property_def)
  show ?thesis unfolding eq using nt assms(2) w by (rule in_order_member)
qed

lemma validateExistsQuery_warns:
  assumes "is_object q" "get_prop q ''field'' = Some (JStr fieldName)" "fieldName \<noteq> []"
    and "get_property currentFields fieldName = Missing"
  shows "validateExistsQuery currentFields q p =
           ([field_not_found fieldName (p @ [Key ''field''])], None)"
  using assms by (simp add: validateExistsQuery_def truthy_property_def push_def)

lemma validateAggregationConfig_warns:
  assumes "is_object q" "get_prop q ''field'' = Some (JStr fieldName)" "fieldName \<noteq> []"
    and "get_property currentFields fieldName = Missing"
    and "aggType \<notin> set [''filter'', ''filters'', ''multi_terms'', ''diversified_sampler'']"
  shows "field_not_found fieldName (p @ [Key ''field'']) \<in>
           set (fst (validateAggregationConfig currentFields aggType q p))"
  using assms
  by (subst validateAggregationConfig.simps)
     (simp add: truthy_opt_def truthy_def ToString_opt_def truthy_property_def)

lemma validateMultiMatchQuery_warns:
  assumes "is_object q" "get_prop q ''fields'' = Some (JArr (map JStr names))"
    and "i < length names" "hd (split_on CHR ''^'' (names ! i)) = fieldName"
    and "get_property currentFields fieldName = Missing"
  shows "field_not_found fieldName (p @ [Key ''fields'', Index i]) \<in>
           set (fst (validateMultiMatchQuery currentFields q p))"
proof -
  let ?fs = "map JStr names"
  let ?B = "in_order (map (validateMultiMatchField currentFields p) (zip [0..<length ?fs] ?fs))"
  let ?A = "if \<not> truthy_opt (get_prop q ''query'') then
             push (finding_at Error
                     (''multi_match query requires '' @ quoted ''query'' @ '' property'') p)
           else ok"
  have eq: "validateMultiMatchQuery currentFields q p = and_then ?A ?B"
    using assms(1,2) by (simp add: validateMultiMatchQuery_def truthy_opt_def truthy_def)
  have ntA: "snd ?A = None" by simp
  have nt: "\<forall>x\<in>set (zip [0..<length ?fs] ?fs).
      snd (validateMultiMatchField currentFields p x) = None"
    by (auto simp: validateMultiMatchField_def Let_def dest!: set_zip_rightD)
  have mem: "(i, JStr (names ! i)) \<in> set (zip [0..<length ?fs] ?fs)"
    using assms(3) by (auto simp: set_zip intro!: exI[of _ i])
  have w: "field_not_found fieldName (p @ [Key ''fields'', Index i]) \<in>
      set (fst (validateMultiMatchField currentFields p (i, JStr (names ! i))))"
    using assms(4,5) by (simp add: validateMultiMatchField_def Let_def truthy_property_def)
  have "field_not_found fieldName (p @ [Key ''fields'', Index i]) \<in> set (fst ?B)"
    using nt mem w by (rule in_order_member)
  then show ?thesis unfolding eq by (simp add: fst_and_then[OF ntA])
qed

lemma validateRangeQuery_unmapped:
  assumes "get_property currentFields fieldName = Missing"
  shows "snd (validateRangeQuery currentFields (JObj [(fieldName, rangeValue)]) p) = None \<and>
     list_all (\<lambda>f. severity f = Error)
       (fst (validateRangeQuery currentFields (JObj [(fieldName, rangeValue)]) p))"
proof -
  let ?ops = "in_order (map (\<lambda>op.
                  if op \<notin> set validRangeOperators then
                    push (finding_at Error
                            (''Unknown range operator: '' @ quoted op @
                             ''. Valid operators are: '' @ join_with '', '' validRangeOperators)
                            (p @ [Key fieldName, Key op]))
                  else ok) (Object_keys rangeValue))"
  have ops: "snd ?ops = None \<and> list_all (\<lambda>f. severity f = Error) (fst ?ops)"
    by (subst in_order_no_throw, simp, subst in_order_no_throw, simp)
       (auto simp: list_all_iff finding_at_def)
  show ?thesis
    using assms ops
    by (simp add: validateRangeQuery_def is_object_def entries_def truthy_property_def
        finding_at_def fst_and_then snd_and_then split: json.splits)
qed

lemma split_on_append_sep:
  "split_on c (a @ [c] @ r) = split_on c a @ split_on c r"
proof (induction a)
  case Nil
  then show ?case by simp
next
  case (Cons x xs)
  obtain p ps where e: "split_on c xs = p # ps"
    using split_on_nonempty[of c xs] by (cases "split_on c xs") auto
  with Cons show ?case by simp
qed

lemma getFieldType_loop_truthy:
  "1 \<le> k \<Longrightarrow> k \<le> n \<Longrightarrow>
   truthy_property (get_property flds (join_with ''.'' (take k parts))) \<Longrightarrow>
   truthy_property (getFieldType_loop flds parts n)"
proof (induction n)
  case 0
  then show ?case by simp
next
  case (Suc n)
  show ?case
  proof (cases "truthy_property (get_property flds (join_with ''.'' (take (Suc n) parts)))")
    case True
    then show ?thesis by (simp add: Let_def)
  next
    case False
    with Suc.prems have "k \<noteq> Suc n" by auto
    with Suc.prems have "k \<le> n" by simp
    with Suc have "truthy_property (getFieldType_loop flds parts n)" by simp
    with False show ?thesis by (simp add: Let_def)
  qed
qed

lemma getFieldType_resolves_extension:
  assumes "map_of flds ancestor = Some info"
  shows "truthy_property (getFieldType flds (ancestor @ ''.'' @ rest))"
proof -
  let ?name = "ancestor @ ''.'' @ rest"
  let ?parts = "split_on CHR ''.'' ?name"
  let ?k = "length (split_on CHR ''.'' ancestor)"
  have parts: "?parts = split_on CHR ''.'' ancestor @ split_on CHR ''.'' rest"
    using split_on_append_sep[of "CHR ''.''" ancestor rest] by simp
  have k1: "1 \<le> ?k" using split_on_nonempty[of "CHR ''.''" ancestor]
    by (cases "split_on CHR ''.'' ancestor") auto
  have k2: "?k \<le> length ?parts" unfolding parts by simp
  have "take ?k ?parts = split_on CHR ''.'' ancestor" unfolding parts by simp
  then have "join_with ''.'' (take ?k ?parts) = ancestor" by (simp add: join_split)
  moreover have "truthy_property (get_property flds ancestor)"
    using assms by (simp add: get_property_def truthy_property_def)
  ultimately have "truthy_property (get_property flds (join_with ''.'' (take ?k ?parts)))" by simp
  with k1 k2 have "truthy_property (getFieldType_loop flds ?parts (length ?parts))"
    by (rule getFieldType_loop_truthy)
  then show ?thesis by (simp add: getFieldType_def Let_def)
qed

lemma dotted_name_plain:
  assumes "map_of flds (ancestor @ ''.'' @ rest) = None"
  shows "get_property flds (ancestor @ ''.'' @ rest) = Missing"
proof -
  have "CHR ''.'' \<in> set (ancestor @ ''.'' @ rest)" by simp
  then show ?thesis using assms by (rule get_property_dotted)
qed

text \<open>
  Claim C10, as amended.  Every field-existence check of the validator reads the registry
  under the exact field path; the ancestor fallback of \<open>getFieldType\<close> is never applied.
  So, for every registry and every field path that is a strict dotted extension of a
  mapped path and is not itself mapped, a path that \<open>getFieldType\<close> does resolve:
  \<^item> a match or term clause object that names the path, an exists clause or an aggregation
    (other than filter, filters, multi_terms, diversified_sampler) whose \<open>field\<close> is the
    path, and a multi_match whose \<open>fields\<close> are strings, one of them the path with or
    without a boost suffix, each produce the warning that the field is not found in the
    mapping;
  \<^item> a range clause on the path produces no warning at all: \<open>validateRangeQuery\<close> has no
    existence check, it only looks at the type of a field that is mapped under the exact
    path, and whatever it reports about the clause is an error.
\<close>

theorem field_checks_use_exact_path:
  assumes "map_of currentFields ancestor = Some info"
    and "fieldName = ancestor @ ''.'' @ rest"
    and "map_of currentFields fieldName = None"
  shows "truthy_property (getFieldType currentFields fieldName) \<and>
    get_property currentFields fieldName = Missing \<and>
    (is_object q \<and> (fieldName, v) \<in> set (entries q) \<longrightarrow>
       field_not_found fieldName (p @ [Key fieldName]) \<in>
         set (fst (validateMatchQuery currentFields q p)) \<and>
       field_not_found fieldName (p @ [Key fieldName]) \<in>
         set (fst (validateTermQuery currentFields q p))) \<and>
    (is_object q \<and> get_prop q ''field'' = Some (JStr fieldName) \<longrightarrow>
       validateExistsQuery currentFields q p =
         ([field_not_found fieldName (p @ [Key ''field''])], None) \<and>
       (aggType \<notin> set [''filter'', ''filters'', ''multi_terms'', ''diversified_sampler''] \<longrightarrow>
          field_not_found fieldName (p @ [Key ''field'']) \<in>
            set (fst (validateAggregationConfig currentFields aggType q p)))) \<and>
    (is_object q \<and> get_prop q ''fields'' = Some (JArr (map JStr names)) \<and>
     i < length names \<and> hd (split_on CHR ''^'' (names ! i)) = fieldName \<longrightarrow>
       field_not_found fieldName (p @ [Key ''fields'', Index i]) \<in>
         set (fst (validateMultiMatchQuery currentFields q p))) \<and>
    snd (validateRangeQuery currentFields (JObj [(fieldName, rangeValue)]) p) = None \<and>
    list_all (\<lambda>f. severity f = Error)
      (fst (validateRangeQuery currentFields (JObj [(fieldName, rangeValue)]) p))"
proof -
  have missing: "get_property currentFields fieldName = Missing"
    using assms(3) unfolding assms(2) by (rule dotted_name_plain)
  have resolves: "truthy_property (getFieldType currentFields fieldName)"
    unfolding assms(2) using assms(1) by (rule getFieldType_resolves_extension)
  have ne: "fieldName \<noteq> []" unfolding assms(2) by simp
  note range = validateRangeQuery_unmapped[OF missing, of rangeValue p]
  show ?thesis
  proof (intro conjI impI)
    show "truthy_property (getFieldType currentFields fieldName)" by (rule resolves)
    show "get_property currentFields fieldName = Missing" by (rule missing)
    show "snd (validateRangeQuery currentFields (JObj [(fieldName, rangeValue)]) p) = None"
      using range by (rule conjunct1)
    show "list_all (\<lambda>f. severity f = Error)
      (fst (validateRangeQuery currentFields (JObj [(fieldName, rangeValue)]) p))"
      using range by (rule conjunct2)
  next
    assume a: "is_object q \<and> (fieldName, v) \<in> set (entries q)"
    show "field_not_found fieldName (p @ [Key fieldName]) \<in>
         set (fst (validateMatchQuery currentFields q p))"
      using validateMatchQuery_warns[of q fieldName v currentFields p] a missing by simp
    show "field_not_found fieldName (p @ [Key fieldName]) \<in>
         set (fst (validateTermQuery currentFields q p))"
      using validateTermQuery_warns[of q fieldName v currentFields p] a missing by simp
  next
    assume a: "is_object q \<and> get_prop q ''field'' = Some (JStr fieldName)"
    show "validateExistsQuery currentFields q p =
         ([field_not_found fieldName (p @ [Key ''field''])], None)"
      using validateExistsQuery_warns[of q fieldName currentFields p] a ne missing by simp
    assume t: "aggType \<notin> set [''filter'', ''filters'', ''multi_terms'', ''diversified_sampler'']"
    show "field_not_found fieldName (p @ [Key ''field'']) \<in>
            set (fst (validateAggregationConfig currentFields aggType q p))"
      using validateAggregationConfig_warns[of q fieldName currentFields aggType p] a ne missing t
      by simp
  next
    assume a: "is_object q \<and> get_prop q ''fields'' = Some (JArr (map JStr names)) \<and>
     i < length names \<and> hd (split_on CHR ''^'' (names ! i)) = fieldName"
    show "field_not_found fieldName (p @ [Key ''fields'', Index i]) \<in>
         set (fst (validateMultiMatchQuery currentFields q p))"
      using validateMultiMatchQuery_warns[of q names i fieldName currentFields p] a missing by simp
  qed
qed

theorem field_checks_use_exact_path_witness:
  "map_of user_fields ''user'' = Some (leaf_field ''object'') \<and>
   map_of user_fields ''user.age'' = None \<and>
   truthy_property (getFieldType user_fields ''user.age'') \<and>
   field_not_found ''user.age'' [Key ''query'', Key ''match'', Key ''user.age''] \<in>
     set (fst (validateMatchQuery user_fields (JObj [(''user.age'', JInt 5)])
                 [Key ''query'', Key ''match''])) \<and>
   field_not_found ''user.age'' [Key ''query'', Key ''term'', Key ''user.age''] \<in>
     set (fst (validateTermQuery user_fields (JObj [(''user.age'', JInt 5)])
                 [Key ''query'', Key ''term''])) \<and>
   validateExistsQuery user_fields (JObj [(''field'', JStr ''user.age'')])
       [Key ''query'', Key ''exists''] =
     ([field_not_found ''user.age'' [Key ''query'', Key ''exists'', Key ''field'']], None) \<and>
   field_not_found ''user.age'' [Key ''aggs'', Key ''ages'', Key ''terms'', Key ''field''] \<in>
     set (fst (validateAggregationConfig user_fields ''terms''
                 (JObj [(''field'', JStr ''user.age'')])
                 [Key ''aggs'', Key ''ages'', Key ''terms''])) \<and>
   field_not_found ''user.age'' [Key ''query'', Key ''multi_match'', Key ''fields'', Index 1] \<in>
     set (fst (validateMultiMatchQuery user_fields
                 (JObj [(''query'', JStr ''x''),
                        (''fields'', JArr (map JStr [''user'', ''user.age^2'']))])
                 [Key ''query'', Key ''multi_match''])) \<and>
   list_all (\<lambda>f. severity f = Error)
     (fst (validateRangeQuery user_fields (JObj [(''user.age'', JObj [(''gte'', JInt 5)])])
             [Key ''query'', Key ''range'']))"
proof -
  have h1: "map_of user_fields ''user'' = Some (leaf_field ''object'')"
    by (simp add: user_fields_def)
  have h2: "''user.age'' = ''user'' @ ''.'' @ ''age''" by simp
  have h3: "map_of user_fields ''user.age'' = None"
    by (simp add: user_fields_def)
  note T = field_checks_use_exact_path[OF h1 h2 h3]
  have hd: "hd (split_on CHR ''^'' ([''user'', ''user.age^2''] ! 1)) = ''user.age''"
    by code_simp
  have a: "truthy_property (getFieldType user_fields ''user.age'')"
    using T[of JNull JNull "[]" "''terms''" "[]" 0 JNull] by (rule conjunct1)
  have b: "field_not_found ''user.age'' [Key ''query'', Key ''match'', Key ''user.age''] \<in>
     set (fst (validateMatchQuery user_fields (JObj [(''user.age'', JInt 5)])
                 [Key ''query'', Key ''match'']))"
    using T[of "JObj [(''user.age'', JInt 5)]" "JInt 5" "[Key ''query'', Key ''match'']"
        "''terms''" "[]" 0 JNull]
    by (simp add: is_object_def entries_def)
  have c: "field_not_found ''user.age'' [Key ''query'', Key ''term'', Key ''user.age''] \<in>
     set (fst (validateTermQuery user_fields (JObj [(''user.age'', JInt 5)])
                 [Key ''query'', Key ''term'']))"
    using T[of "JObj [(''user.age'', JInt 5)]" "JInt 5" "[Key ''query'', Key ''term'']"
        "''terms''" "[]" 0 JNull]
    by (simp add: is_object_def entries_def)
  have d: "validateExistsQuery user_fields (JObj [(''field'', JStr ''user.age'')])
       [Key ''query'', Key ''exists''] =
     ([field_not_found ''user.age'' [Key ''query'', Key ''exists'', Key ''field'']], None)"
    using T[of "JObj [(''field'', JStr ''user.age'')]" JNull "[Key ''query'', Key ''exists'']"
        "''terms''" "[]" 0 JNull]
    by (simp add: is_object_def entries_def get_prop_def)
  have e: "field_not_found ''user.age'' [Key ''aggs'', Key ''ages'', Key ''terms'', Key ''field''] \<in>
     set (fst (validateAggregationConfig user_fields ''terms''
                 (JObj [(''field'', JStr ''user.age'')])
                 [Key ''aggs'', Key ''ages'', Key ''terms'']))"
    using T[of "JObj [(''field'', JStr ''user.age'')]" JNull
        "[Key ''aggs'', Key ''ages'', Key ''terms'']" "''terms''" "[]" 0 JNull]
    by (simp add: is_object_def entries_def get_prop_def)
  have f: "field_not_found ''user.age'' [Key ''query'', Key ''multi_match'', Key ''fields'', Index 1] \<in>
     set (fst (validateMultiMatchQuery user_fields
                 (JObj [(''query'', JStr ''x''),
                        (''fields'', JArr (map JStr [''user'', ''user.age^2'']))])
                 [Key ''query'', Key ''multi_match'']))"
    using T[of "JObj [(''query'', JStr ''x''),
                      (''fields'', JArr (map JStr [''user'', ''user.age^2'']))]" JNull
        "[Key ''query'', Key ''multi_match'']" "''terms''" "[''user'', ''user.age^2'']" 1 JNull] hd
    by (simp add: is_object_def entries_def get_prop_def)
  have g: "list_all (\<lambda>f. severity f = Error)
     (fst (validateRangeQuery user_fields (JObj [(''user.age'', JObj [(''gte'', JInt 5)])])
             [Key ''query'', Key ''range'']))"
    using T[of JNull JNull "[Key ''query'', Key ''range'']" "''terms''" "[]" 0
        "JObj [(''gte'', JInt 5)]"]
    by simp
  from h1 h3 a b c d e f g show ?thesis by (intro conjI)
qed

text \<open>
  The same through \<open>validate_document\<close>: the document
  \<open>{"query": {"match": {"user.age": 5}}}\<close> gets the one warning.
\<close>

lemma validate_document_match_unmapped:
  "validate_document user_fields match_document =
     ([field_not_found ''user.age'' [Key ''query'', Key ''match'', Key ''user.age'']], None)"
  by code_simp

text \<open>
  Claim C10 as stated promises the warning for a range clause too.  With \<open>user\<close> mapped
  and \<open>user.age\<close> not, \<open>getFieldType\<close> resolves \<open>user.age\<close> to the entry of
  \<open>user\<close>, and the document \<open>{"query": {"range": {"user.age": {"gte": 5}}}}\<close> gets no
  finding.
\<close>

theorem range_unmapped_field_counterexample:
  "getFieldType user_fields ''user.age'' = Own (leaf_field ''object'') \<and>
   get_property user_fields ''user.age'' = Missing \<and>
   validate_document user_fields range_document = ([], None)"
  by code_simp

text \<open>
  The check in \<open>validateSort\<close> reads the exact path as well, but no finding comes of it:
  \<open>validate\<close> calls \<open>validateSort\<close> without its \<open>path\<close> argument, so building the
  warning raises a TypeError, which \<open>validate\<close> reports as a syntax error.
\<close>

lemma validateSort_unmapped_field_raises:
  "validate_document user_fields sort_document = ([], Some (TypeError ''path is not iterable''))"
  by code_simp


section \<open>Properties of the context resolver\<close>

lemma getDSLContext_try_text:
  "getDSLContext_try JSON_parse (Some code) offset =
     Inr (analyzePath (s_path (scan_to code offset)) code offset)"
  by (simp add: getDSLContext_try_def partialParse_def findPathToOffset_def
      split: sum.splits)

text \<open>
  Claim C9.  For every text and every cursor offset \<open>getDSLContext\<close> returns a context
  and raises nothing: every loop of the resolver is bounded by the offset or by the length
  of the text, and on a text nothing in the resolution raises, so the result is the
  analysis of the scanned path.  Whenever the body of its \<open>try\<close> block does raise (as it
  does when \<open>code\<close> is not a text at all), the function returns the default context,
  whose location is unknown, whose path is empty and which expects a key.
\<close>

theorem getDSLContext_never_raises:
  "(\<exists>ctx. getDSLContext JSON_parse code offset = Inr ctx) \<and>
   getDSLContext JSON_parse (Some txt) offset =
     Inr (analyzePath (s_path (scan_to txt offset)) txt offset) \<and>
   (getDSLContext_try JSON_parse code offset = Inl e \<longrightarrow>
      getDSLContext JSON_parse code offset = Inr getDefaultContext) \<and>
   location getDefaultContext = Unknown \<and>
   ctx_path getDefaultContext = [] \<and>
   expecting getDefaultContext = ExpectKey"
proof (intro conjI impI)
  show "\<exists>ctx. getDSLContext JSON_parse code offset = Inr ctx"
    by (cases "getDSLContext_try JSON_parse code offset") (simp_all add: getDSLContext_def)
  show "getDSLContext JSON_parse (Some txt) offset =
     Inr (analyzePath (s_path (scan_to txt offset)) txt offset)"
    by (simp add: getDSLContext_def getDSLContext_try_text)
  show "location getDefaultContext = Unknown" "ctx_path getDefaultContext = []"
    "expecting getDefaultContext = ExpectKey"
    by (simp_all add: getDefaultContext_def)
next
  assume "getDSLContext_try JSON_parse code offset = Inl e"
  then show "getDSLContext JSON_parse code offset = Inr getDefaultContext"
    by (simp add: getDSLContext_def)
qed

theorem getDSLContext_never_raises_witness:
  "getDSLContext_try rejecting_parser None 3 =
     Inl (TypeError ''Cannot read properties of undefined (reading 'length')'') \<and>
   getDSLContext rejecting_parser None 3 = Inr getDefaultContext \<and>
   getDSLContext rejecting_parser (Some broken_text) 3 =
     Inr (getDefaultContext\<lparr>depth := 0, expecting := ExpectKey\<rparr>)"
proof -
  have h: "getDSLContext_try rejecting_parser None 3 =
     Inl (TypeError ''Cannot read properties of undefined (reading 'length')'')"
    by (simp add: getDSLContext_try_def partialParse_def)
  have a: "analyzePath (s_path (scan_to broken_text 3)) broken_text 3 =
     getDefaultContext\<lparr>depth := 0, expecting := ExpectKey\<rparr>"
    by code_simp
  from getDSLContext_never_raises[of rejecting_parser None 3 broken_text
      "TypeError ''Cannot read properties of undefined (reading 'length')''"] h a
  show ?thesis by simp
qed

section \<open>Properties of the completion provider\<close>

lemma filterSuggestions_labels:
  "currentWord \<noteq> [] \<Longrightarrow> s \<in> set (filterSuggestions suggestions currentWord) \<Longrightarrow>
   startsWith (toLowerCase (label s)) (toLowerCase currentWord)"
  by (simp add: filterSuggestions_def)

text \<open>
  Whenever \<open>provideCompletionItems\<close> returns a list for a word in progress that is not
  empty, every label in the list starts with that word, letter case ignored.
\<close>

lemma provideCompletionItems_labels_start_with_word:
  assumes "provideCompletionItems JSON_parse currentFields code offset = Inr result"
    and "currentWord = extractCurrentWord (last (split_on CHR 0x0A (take offset code)))"
    and "currentWord \<noteq> []"
    and "s \<in> set result"
  shows "startsWith (toLowerCase (label s)) (toLowerCase currentWord)"
proof -
  from assms(1,2) obtain suggestions where "result = filterSuggestions suggestions currentWord"
    by (auto simp: provideCompletionItems_def Let_def split: sum.splits if_splits)
  with assms(3,4) show ?thesis by (simp add: filterSuggestions_labels)
qed

lemma deduplicate_seen_fresh:
  "s \<in> set (deduplicate_seen seen ss) \<Longrightarrow> label s \<notin> set seen"
proof (induction ss arbitrary: seen)
  case Nil
  then show ?case by simp
next
  case (Cons a ss)
  show ?case
  proof (cases "label a \<in> set seen")
    case True
    with Cons show ?thesis by simp
  next
    case False
    with Cons.prems have "s = a \<or> s \<in> set (deduplicate_seen (label a # seen) ss)" by simp
    then show ?thesis
    proof
      assume "s = a"
      with False show ?thesis by simp
    next
      assume "s \<in> set (deduplicate_seen (label a # seen) ss)"
      then have "label s \<notin> set (label a # seen)" by (rule Cons.IH)
      then show ?thesis by simp
    qed
  qed
qed

lemma deduplicate_seen_distinct:
  "distinct (map label (deduplicate_seen seen ss))"
proof (induction ss arbitrary: seen)
  case Nil
  then show ?case by simp
next
  case (Cons a ss)
  show ?case
  proof (cases "label a \<in> set seen")
    case True
    with Cons show ?thesis by simp
  next
    case False
    have "label a \<notin> label ` set (deduplicate_seen (label a # seen) ss)"
    proof
      assume "label a \<in> label ` set (deduplicate_seen (label a # seen) ss)"
      then obtain s where s: "s \<in> set (deduplicate_seen (label a # seen) ss)"
        and eq: "label a = label s" by auto
      from s have "label s \<notin> set (label a # seen)" by (rule deduplicate_seen_fresh)
      with eq show False by simp
    qed
    with False Cons show ?thesis by simp
  qed
qed

text \<open>What \<open>deduplicateSuggestions\<close> returns has no label twice.\<close>

lemma deduplicateSuggestions_distinct:
  "distinct (map label (deduplicateSuggestions ss))"
  by (simp add: deduplicateSuggestions_def deduplicate_seen_distinct)

text \<open>
  Claim C8 (not met by the code).  The claim: for a word in progress that is not empty,
  every returned label starts with the word, letter case ignored, and no two returned
  suggestions share a label.  The first half holds (lemma
  \<open>provideCompletionItems_labels_start_with_word\<close>).  The second does not:
  \<open>provideCompletionItems\<close> never calls \<open>deduplicateSuggestions\<close>.  On the sample text
  the word is \<open>d\<close>, the context is that of an aggregation, the text is shorter than 50
  characters, and the label \<open>date_histogram\<close> is returned twice, once as an aggregation
  type and once as a template.
\<close>

theorem provideCompletionItems_duplicate_labels:
  "extractCurrentWord (last (split_on CHR 0x0A (take 17 aggs_text))) = ''d'' \<and>
   provideCompletionItems rejecting_parser [] aggs_text 17 =
     Inr [\<lparr>label = ''date_range'', kind = Function, detail = Some ''Date range buckets''\<rparr>,
          \<lparr>label = ''date_histogram'', kind = Function, detail = Some ''Date histogram''\<rparr>,
          \<lparr>label = ''date_histogram'', kind = Snippet,
           detail = Some ''Time series aggregation''\<rparr>]"
  by code_simp

end
